theory Spec2Isabelle
  imports Complex_Main "HOL-Library.Word" "HOL-Library.AList" "HOL-Library.Signed_Division"
begin

unbundle bit_operations_syntax

section \<open>The TMEPT assembler (tools/tmept\_asm.py)\<close>

text \<open>
  A shallow embedding of the assembler: Python \<open>int\<close> is \<^typ>\<open>int\<close>, \<open>str\<close> is
  \<^typ>\<open>string\<close> (7-bit ASCII, as the source file format prescribes), the symbol table is a
  map, the memory dictionary is an insertion-ordered association list (the image writer
  walks it in that order), and every \<open>raise\<close> is a value of the type \<open>error\<close>.
\<close>

subsection \<open>Characters and strings\<close>

definition is_space :: "char \<Rightarrow> bool" where
  \<comment> \<open>What \<open>str.strip()\<close> and the regular expression \<open>\s\<close> remove, below code point 128:
      TAB, LF, VT, FF, CR, FS, GS, RS, US and the blank.\<close>
  "is_space c \<longleftrightarrow> c \<in> set [CHR 0x09, CHR 0x0A, CHR 0x0B, CHR 0x0C, CHR 0x0D,
                            CHR 0x1C, CHR 0x1D, CHR 0x1E, CHR 0x1F, CHR '' '']"

definition is_digit :: "char \<Rightarrow> bool" where
  "is_digit c \<longleftrightarrow> c \<in> set ''0123456789''"

definition is_hex_digit :: "char \<Rightarrow> bool" where
  "is_hex_digit c \<longleftrightarrow> c \<in> set ''0123456789abcdefABCDEF''"

definition is_alpha :: "char \<Rightarrow> bool" where
  "is_alpha c \<longleftrightarrow> c \<in> set ''abcdefghijklmnopqrstuvwxyzABCDEFGHIJKLMNOPQRSTUVWXYZ''"

definition is_word :: "char \<Rightarrow> bool" where
  \<comment> \<open>The regular expression \<open>\w\<close> on ASCII.\<close>
  "is_word c \<longleftrightarrow> is_alpha c \<or> is_digit c \<or> c = CHR ''_''"

definition strip :: "string \<Rightarrow> string" where
  "strip s = rev (dropWhile is_space (rev (dropWhile is_space s)))"

definition upper_char :: "char \<Rightarrow> char" where
  "upper_char c =
     (case map_of (zip ''abcdefghijklmnopqrstuvwxyz'' ''ABCDEFGHIJKLMNOPQRSTUVWXYZ'') c of
        Some u \<Rightarrow> u | None \<Rightarrow> c)"

definition upper :: "string \<Rightarrow> string" where
  "upper s = map upper_char s"

definition digit_val :: "char \<Rightarrow> nat" where
  \<comment> \<open>The value of a digit in base up to 16 (0 for any other character).\<close>
  "digit_val c =
     (case map_of (zip ''0123456789abcdef'' [0, 1, 2, 3, 4, 5, 6, 7, 8, 9, 10, 11, 12, 13, 14, 15]) c of
        Some v \<Rightarrow> v
      | None \<Rightarrow> (case map_of (zip ''ABCDEF'' [10, 11, 12, 13, 14, 15]) c of
                   Some v \<Rightarrow> v | None \<Rightarrow> 0))"

definition nat_of_digits :: "nat \<Rightarrow> string \<Rightarrow> nat" where
  \<comment> \<open>\<open>int(s, base)\<close> on a string of digits of that base.\<close>
  "nat_of_digits base ds = foldl (\<lambda>acc c. acc * base + digit_val c) 0 ds"

fun hex_digits :: "nat \<Rightarrow> nat \<Rightarrow> string" where
  \<comment> \<open>The lowercase hexadecimal digits of a number, most significant first; the first
      argument bounds the number of digits.\<close>
  "hex_digits 0 n = []"
| "hex_digits (Suc f) n =
     (if n < 16 then [''0123456789abcdef'' ! n]
      else hex_digits f (n div 16) @ [''0123456789abcdef'' ! (n mod 16)])"

definition py_hex :: "nat \<Rightarrow> string" where
  \<comment> \<open>Python's \<open>hex(n)\<close> for \<open>n \<ge> 0\<close>; a number has at most \<open>n + 1\<close> digits.\<close>
  "py_hex n = ''0x'' @ hex_digits (Suc n) n"

subsection \<open>Errors\<close>

datatype asm_msg =
    CannotEvaluate        \<comment> \<open>"Cannot evaluate expression ..."\<close>
  | ExpectedRegister      \<comment> \<open>"Expected register (R0-R15), got ..."\<close>
  | RegisterRange         \<comment> \<open>"Register Rn out of range (max R15)"\<close>
  | DuplicateLabel        \<comment> \<open>"Duplicate label ..."\<close>
  | OrgRequiresAddress    \<comment> \<open>".org requires an address"\<close>
  | EquRequiresValue      \<comment> \<open>".equ requires NAME, value"\<close>
  | OperandCount          \<comment> \<open>"... takes 1 operand", "... unexpected operand count", ...\<close>
  | LmarRange             \<comment> \<open>"LMAR address ... out of 16-bit range"\<close>
  | ByteRange             \<comment> \<open>".byte value ... out of range"\<close>
  | ResetvecOperands      \<comment> \<open>".resetvec requires one address"\<close>
  | UnknownMnemonic       \<comment> \<open>"Unknown mnemonic ..."\<close>
  | WrappedException      \<comment> \<open>pass2's \<open>raise AsmError(str(e), ...)\<close> for any other exception\<close>
  | CircularInclude       \<comment> \<open>"Circular include: ..."\<close>
  | CannotOpen            \<comment> \<open>"Cannot open ..." (the spec's IncludeNotFound)\<close>
  | MalformedInclude      \<comment> \<open>"Malformed .include"\<close>

datatype py_exception =
    SyntaxError | NameError | TypeError | ZeroDivisionError | ValueError | IndexError
  | AttributeError

datatype error =
    AsmError asm_msg            \<comment> \<open>the assembler's own exception class\<close>
  | PyException py_exception    \<comment> \<open>any other Python exception\<close>
  | OutsideFragment             \<comment> \<open>the input leaves the part of Python this theory models;
                                    the model says nothing about what the program does there\<close>

definition ebind :: "error + 'a \<Rightarrow> ('a \<Rightarrow> error + 'b) \<Rightarrow> error + 'b" where
  \<comment> \<open>Sequencing: an exception of the first computation skips the second.\<close>
  "ebind m f = (case m of Inl e \<Rightarrow> Inl e | Inr x \<Rightarrow> f x)"

subsection \<open>Expression evaluator\<close>

text \<open>
  \<open>eval_expr\<close> rewrites the text with three regular expressions and hands it to Python's
  \<open>eval\<close>. The rewrites are modelled on the text, as the source does them.
\<close>

function sub_dollar :: "string \<Rightarrow> string" where
  \<comment> \<open>\<open>re.sub(r'\$([0-9A-Fa-f]+)', lambda m: hex(int(m.group(1), 16)), s)\<close>\<close>
  "sub_dollar [] = []"
| "sub_dollar (c # cs) =
     (if c = CHR ''$'' \<and> takeWhile is_hex_digit cs \<noteq> []
      then py_hex (nat_of_digits 16 (takeWhile is_hex_digit cs)) @ sub_dollar (dropWhile is_hex_digit cs)
      else c # sub_dollar cs)"
  by pat_completeness auto
termination
  by (relation "measure length") (auto simp: less_Suc_eq_le length_dropWhile_le)

definition call_match :: "string \<Rightarrow> string \<Rightarrow> string option" where
  \<comment> \<open>A match of \<open>name\s*\(\<close> at the start of the text: what follows the match.\<close>
  "call_match name s =
     (if take (length name) s = name
      then (case dropWhile is_space (drop (length name) s) of
              [] \<Rightarrow> None
            | d # rest \<Rightarrow> if d = CHR ''('' then Some rest else None)
      else None)"

function sub_call :: "string \<Rightarrow> string \<Rightarrow> bool \<Rightarrow> string \<Rightarrow> string" where
  \<comment> \<open>\<open>re.sub(r'\bname\s*\(', repl, s)\<close> for a name that starts with a word character;
      the flag tells whether the character before the text is a word character.\<close>
  "sub_call name repl prev_word [] = []"
| "sub_call name repl prev_word (c # cs) =
     (if \<not> prev_word \<and> name \<noteq> [] \<and> call_match name (c # cs) \<noteq> None
      then repl @ sub_call name repl False (the (call_match name (c # cs)))
      else c # sub_call name repl (is_word c) cs)"
  by pat_completeness auto
termination
proof (relation "measure (\<lambda>(name, repl, prev_word, s). length s)")
  show "wf (measure (\<lambda>(name, repl, prev_word, s). length s))" by simp
next
  fix name repl :: string and prev_word :: bool and c :: char and cs :: string
  assume a: "\<not> prev_word \<and> name \<noteq> [] \<and> call_match name (c # cs) \<noteq> None"
  then obtain rest where r: "call_match name (c # cs) = Some rest" by auto
  then obtain d where d: "dropWhile is_space (drop (length name) (c # cs)) = d # rest"
    by (auto simp: call_match_def split: if_splits list.splits)
  have "length (d # rest) \<le> length (drop (length name) (c # cs))"
    unfolding d[symmetric] by (rule length_dropWhile_le)
  also have "\<dots> \<le> length (c # cs)" by simp
  finally have "length rest < length (c # cs)" by simp
  with r show "((name, repl, False, the (call_match name (c # cs))), (name, repl, prev_word, c # cs))
                \<in> measure (\<lambda>(name, repl, prev_word, s). length s)" by simp
next
  fix name repl :: string and prev_word :: bool and c :: char and cs :: string
  show "((name, repl, is_word c, cs), (name, repl, prev_word, c # cs))
          \<in> measure (\<lambda>(name, repl, prev_word, s). length s)" by simp
qed


text \<open>
  Python's \<open>eval\<close> is modelled on the expression language the assembler documents: integer
  literals (decimal, \<open>0x\<close>, \<open>0b\<close>, \<open>0o\<close>), names, the operators
  \<open>+ - * / % | & ^ ~ << >>\<close>, parentheses and calls. Whatever else Python would accept or
  reject (other operators, keywords, float literals, strings, \<dots>) is \<open>OutsideFragment\<close>.
\<close>

datatype token =
    TNum int | TName string
  | TPlus | TMinus | TStar | TSlash | TPercent | TPipe | TAmp | TCaret | TTilde
  | TShl | TShr | TLPar | TRPar

definition py_reserved :: "string list" where
  \<comment> \<open>Python's keywords and the name that \<open>eval\<close>'s globals bind.\<close>
  "py_reserved = [''False'', ''None'', ''True'', ''and'', ''as'', ''assert'', ''async'', ''await'',
     ''break'', ''class'', ''continue'', ''def'', ''del'', ''elif'', ''else'', ''except'',
     ''finally'', ''for'', ''from'', ''global'', ''if'', ''import'', ''in'', ''is'', ''lambda'',
     ''nonlocal'', ''not'', ''or'', ''pass'', ''raise'', ''return'', ''try'', ''while'', ''with'',
     ''yield'', ''__builtins__'', ''__debug__'']"

definition lex_prefixed :: "nat \<Rightarrow> string \<Rightarrow> string \<Rightarrow> (int \<times> nat) option" where
  \<comment> \<open>The digits of a literal after its two-character prefix: the value and the number of
      characters read after the literal's first character.\<close>
  "lex_prefixed base digits s =
     (let ds = takeWhile (\<lambda>c. c \<in> set digits) s
      in if ds = [] then None else Some (int (nat_of_digits base ds), Suc (length ds)))"

definition lex_number :: "char \<Rightarrow> string \<Rightarrow> (int \<times> nat) option" where
  \<comment> \<open>An integer literal that starts with the digit \<open>c\<close>: its value and how many of the
      following characters belong to it. Decimal literals with a leading zero or with more
      digits than Python's conversion limit are left out.\<close>
  "lex_number c cs =
     (if c = CHR ''0'' \<and> cs \<noteq> [] \<and> hd cs \<in> set ''xX'' then lex_prefixed 16 ''0123456789abcdefABCDEF'' (tl cs)
      else if c = CHR ''0'' \<and> cs \<noteq> [] \<and> hd cs \<in> set ''bB'' then lex_prefixed 2 ''01'' (tl cs)
      else if c = CHR ''0'' \<and> cs \<noteq> [] \<and> hd cs \<in> set ''oO'' then lex_prefixed 8 ''01234567'' (tl cs)
      else (let ds = takeWhile is_digit cs
            in if c = CHR ''0'' \<and> ds \<noteq> [] then None
               else if 4000 < length ds then None
               else Some (int (nat_of_digits 10 (c # ds)), length ds)))"

definition single_op :: "char \<Rightarrow> token option" where
  "single_op c = map_of [(CHR ''+'', TPlus), (CHR ''-'', TMinus), (CHR ''%'', TPercent),
     (CHR ''|'', TPipe), (CHR ''&'', TAmp), (CHR ''^'', TCaret), (CHR ''~'', TTilde),
     (CHR ''('', TLPar), (CHR '')'', TRPar)] c"

function tokenize :: "string \<Rightarrow> token list option" where
  \<comment> \<open>\<open>None\<close>: the text has a token outside the modelled fragment.\<close>
  "tokenize [] = Some []"
| "tokenize (c # cs) =
     (if c = CHR '' '' \<or> c = CHR 0x09 then tokenize cs
      else if is_digit c then
        (case lex_number c cs of
           None \<Rightarrow> None
         | Some (n, k) \<Rightarrow>
             (if drop k cs \<noteq> [] \<and> (is_word (hd (drop k cs)) \<or> hd (drop k cs) = CHR ''.'') then None
              else map_option (Cons (TNum n)) (tokenize (drop k cs))))
      else if is_alpha c \<or> c = CHR ''_'' then
        (if c # takeWhile is_word cs \<in> set py_reserved then None
         else map_option (Cons (TName (c # takeWhile is_word cs))) (tokenize (dropWhile is_word cs)))
      else if c = CHR ''<'' then
        (case cs of [] \<Rightarrow> None
         | d # ds \<Rightarrow> if d = CHR ''<'' then map_option (Cons TShl) (tokenize ds) else None)
      else if c = CHR ''>'' then
        (case cs of [] \<Rightarrow> None
         | d # ds \<Rightarrow> if d = CHR ''>'' then map_option (Cons TShr) (tokenize ds) else None)
      else if c = CHR ''*'' then
        (if cs \<noteq> [] \<and> hd cs = CHR ''*'' then None else map_option (Cons TStar) (tokenize cs))
      else if c = CHR ''/'' then
        (if cs \<noteq> [] \<and> hd cs = CHR ''/'' then None else map_option (Cons TSlash) (tokenize cs))
      else (case single_op c of
              None \<Rightarrow> None
            | Some t \<Rightarrow> map_option (Cons t) (tokenize cs)))"
  by pat_completeness auto
termination
  by (relation "measure length") (auto simp: less_Suc_eq_le length_dropWhile_le)

datatype unop = UPos | UNeg | UInvert

datatype binop = BOr | BXor | BAnd | BShl | BShr | BAdd | BSub | BMul | BDiv | BMod

datatype expr =
    ENum int | EName string | EUn unop expr | EBin binop expr expr | ECall expr expr

fun binop_of :: "token \<Rightarrow> (binop \<times> nat) option" where
  \<comment> \<open>A binary operator and its precedence level in Python's grammar.\<close>
  "binop_of TPipe = Some (BOr, 1)"
| "binop_of TCaret = Some (BXor, 2)"
| "binop_of TAmp = Some (BAnd, 3)"
| "binop_of TShl = Some (BShl, 4)"
| "binop_of TShr = Some (BShr, 4)"
| "binop_of TPlus = Some (BAdd, 5)"
| "binop_of TMinus = Some (BSub, 5)"
| "binop_of TStar = Some (BMul, 6)"
| "binop_of TSlash = Some (BDiv, 6)"
| "binop_of TPercent = Some (BMod, 6)"
| "binop_of _ = None"

fun unop_of :: "token \<Rightarrow> unop option" where
  "unop_of TPlus = Some UPos"
| "unop_of TMinus = Some UNeg"
| "unop_of TTilde = Some UInvert"
| "unop_of _ = None"

fun parse_expr :: "nat \<Rightarrow> nat \<Rightarrow> token list \<Rightarrow> error + (expr \<times> token list)"
  and parse_rest :: "nat \<Rightarrow> nat \<Rightarrow> expr \<Rightarrow> token list \<Rightarrow> error + (expr \<times> token list)"
  and parse_factor :: "nat \<Rightarrow> token list \<Rightarrow> error + (expr \<times> token list)"
  and parse_trailers :: "nat \<Rightarrow> expr \<Rightarrow> token list \<Rightarrow> error + (expr \<times> token list)"
where
  \<comment> \<open>Python's expression grammar on these tokens, by precedence climbing: all binary
      operators associate to the left, a unary operator binds tighter than any binary one,
      a call binds tightest. The first argument bounds the recursion depth; the second is
      the lowest precedence an operator may have to be read here.\<close>
  "parse_expr 0 p ts = Inl OutsideFragment"
| "parse_expr (Suc n) p ts =
     ebind (parse_factor n ts) (\<lambda>(l, ts'). parse_rest n p l ts')"
| "parse_rest 0 p l ts = Inl OutsideFragment"
| "parse_rest (Suc n) p l [] = Inr (l, [])"
| "parse_rest (Suc n) p l (t # ts) =
     (case binop_of t of
        None \<Rightarrow> Inr (l, t # ts)
      | Some (b, q) \<Rightarrow>
          if q < p then Inr (l, t # ts)
          else ebind (parse_expr n (Suc q) ts) (\<lambda>(r, ts'). parse_rest n p (EBin b l r) ts'))"
| "parse_factor 0 ts = Inl OutsideFragment"
| "parse_factor (Suc n) [] = Inl (PyException SyntaxError)"
| "parse_factor (Suc n) (t # ts) =
     (case unop_of t of
        Some u \<Rightarrow> ebind (parse_factor n ts) (\<lambda>(e, ts'). Inr (EUn u e, ts'))
      | None \<Rightarrow>
         (case t of
            TNum k \<Rightarrow> parse_trailers n (ENum k) ts
          | TName x \<Rightarrow> parse_trailers n (EName x) ts
          | TLPar \<Rightarrow>
              (case ts of
                 TRPar # _ \<Rightarrow> Inl OutsideFragment
               | _ \<Rightarrow> ebind (parse_expr n 0 ts) (\<lambda>(e, ts').
                        case ts' of
                          TRPar # ts'' \<Rightarrow> parse_trailers n e ts''
                        | _ \<Rightarrow> Inl (PyException SyntaxError)))
          | _ \<Rightarrow> Inl (PyException SyntaxError)))"
| "parse_trailers 0 f ts = Inl OutsideFragment"
| "parse_trailers (Suc n) f [] = Inr (f, [])"
| "parse_trailers (Suc n) f (t # ts) =
     (if t = TLPar then
        (case ts of
           TRPar # _ \<Rightarrow> Inl OutsideFragment
         | _ \<Rightarrow> ebind (parse_expr n 0 ts) (\<lambda>(a, ts').
                  case ts' of
                    TRPar # ts'' \<Rightarrow> parse_trailers n (ECall f a) ts''
                  | _ \<Rightarrow> Inl (PyException SyntaxError)))
      else Inr (f, t # ts))"

definition py_parse :: "string \<Rightarrow> error + expr" where
  \<comment> \<open>The whole text is one expression. Every level of the recursion reads a token within
      four calls, so the depth bound is generous; reaching it leaves the fragment.\<close>
  "py_parse s =
     (case tokenize s of
        None \<Rightarrow> Inl OutsideFragment
      | Some ts \<Rightarrow>
          ebind (parse_expr (4 * length ts + 8) 0 ts) (\<lambda>(e, rest).
            if rest = [] then Inr e else Inl (PyException SyntaxError)))"


text \<open>
  Values: Python integers, the two helper functions of the namespace, and floats. A float
  is modelled by the rational it denotes, and only while it is exact: an operation whose
  mathematical result is a double (here: a dyadic rational with a numerator below \<open>2^53\<close>
  and a denominator of at most \<open>2^1000\<close>) returns that double under IEEE rounding; any
  other float result is \<open>OutsideFragment\<close>.
\<close>

datatype builtin = Lo | Hi

datatype pyval = VInt int | VFloat rat | VFun builtin

definition exact_double :: "rat \<Rightarrow> bool" where
  "exact_double q =
     (case quotient_of q of
        (n, d) \<Rightarrow> \<bar>n\<bar> < 2 ^ 53 \<and> d AND (d - 1) = 0 \<and> d \<le> 2 ^ 1000)"

definition mk_float :: "rat \<Rightarrow> error + pyval" where
  "mk_float q = (if exact_double q then Inr (VFloat q) else Inl OutsideFragment)"

definition trunc_zero :: "rat \<Rightarrow> int" where
  \<comment> \<open>\<open>int(x)\<close> of a float: rounding toward zero.\<close>
  "trunc_zero q = (if 0 \<le> q then \<lfloor>q\<rfloor> else \<lceil>q\<rceil>)"

fun py_int :: "pyval \<Rightarrow> error + int" where
  \<comment> \<open>The built-in \<open>int(x)\<close>.\<close>
  "py_int (VInt n) = Inr n"
| "py_int (VFloat q) = Inr (trunc_zero q)"
| "py_int (VFun f) = Inl (PyException TypeError)"

fun to_float :: "pyval \<Rightarrow> error + rat" where
  \<comment> \<open>The operand of float arithmetic; an integer converts exactly below \<open>2^53\<close>.\<close>
  "to_float (VInt n) = (if \<bar>n\<bar> < 2 ^ 53 then Inr (of_int n) else Inl OutsideFragment)"
| "to_float (VFloat q) = Inr q"
| "to_float (VFun f) = Inl (PyException TypeError)"

definition float_op :: "binop \<Rightarrow> pyval \<Rightarrow> pyval \<Rightarrow> error + pyval" where
  \<comment> \<open>\<open>+ - * /\<close> when an operand is a float, and \<open>/\<close> on two integers.\<close>
  "float_op b x y =
     ebind (to_float x) (\<lambda>p. ebind (to_float y) (\<lambda>q.
       if b = BAdd then mk_float (p + q)
       else if b = BSub then mk_float (p - q)
       else if b = BMul then mk_float (p * q)
       else if b = BDiv then
         (if q = 0 then Inl (PyException ZeroDivisionError) else mk_float (p / q))
       else Inl OutsideFragment))"

fun int_op :: "binop \<Rightarrow> int \<Rightarrow> int \<Rightarrow> error + pyval" where
  \<comment> \<open>A binary operator on two integers. \<open>/\<close> is Python's true division: its result is a
      float. A left shift by more than 65536 bits is left out (Python may run out of
      memory there).\<close>
  "int_op BOr a b = Inr (VInt (a OR b))"
| "int_op BXor a b = Inr (VInt (a XOR b))"
| "int_op BAnd a b = Inr (VInt (a AND b))"
| "int_op BShl a b =
     (if b < 0 then Inl (PyException ValueError)
      else if 65536 < b then Inl OutsideFragment
      else Inr (VInt (push_bit (nat b) a)))"
| "int_op BShr a b =
     (if b < 0 then Inl (PyException ValueError) else Inr (VInt (drop_bit (nat b) a)))"
| "int_op BAdd a b = Inr (VInt (a + b))"
| "int_op BSub a b = Inr (VInt (a - b))"
| "int_op BMul a b = Inr (VInt (a * b))"
| "int_op BDiv a b =
     (if b = 0 then Inl (PyException ZeroDivisionError)
      else mk_float (of_int a / of_int b))"
| "int_op BMod a b =
     (if b = 0 then Inl (PyException ZeroDivisionError) else Inr (VInt (a mod b)))"

fun bin_op :: "binop \<Rightarrow> pyval \<Rightarrow> pyval \<Rightarrow> error + pyval" where
  "bin_op b (VInt x) (VInt y) = int_op b x y"
| "bin_op b (VFun f) y = Inl (PyException TypeError)"
| "bin_op b x (VFun f) = Inl (PyException TypeError)"
| "bin_op b x y =
     (if b \<in> {BOr, BXor, BAnd, BShl, BShr} then Inl (PyException TypeError)
      else float_op b x y)"

fun un_op :: "unop \<Rightarrow> pyval \<Rightarrow> error + pyval" where
  "un_op UPos (VInt n) = Inr (VInt n)"
| "un_op UNeg (VInt n) = Inr (VInt (- n))"
| "un_op UInvert (VInt n) = Inr (VInt (NOT n))"
| "un_op UPos (VFloat q) = Inr (VFloat q)"
| "un_op UNeg (VFloat q) = Inr (VFloat (- q))"
| "un_op u v = Inl (PyException TypeError)"

fun call_builtin :: "builtin \<Rightarrow> pyval \<Rightarrow> error + pyval" where
  \<comment> \<open>\<open>ns['__lo__'] = lambda x: int(x) & 0xFF\<close> and
      \<open>ns['__hi__'] = lambda x: (int(x) >> 8) & 0xFF\<close>\<close>
  "call_builtin Lo x = ebind (py_int x) (\<lambda>n. Inr (VInt (n AND 0xFF)))"
| "call_builtin Hi x = ebind (py_int x) (\<lambda>n. Inr (VInt (drop_bit 8 n AND 0xFF)))"

definition ns_lookup :: "(string \<rightharpoonup> int) \<Rightarrow> string \<Rightarrow> error + pyval" where
  \<comment> \<open>The namespace \<open>ns\<close>: the symbols, then the two helpers stored over them.\<close>
  "ns_lookup symbols x =
     (if x = ''__lo__'' then Inr (VFun Lo)
      else if x = ''__hi__'' then Inr (VFun Hi)
      else (case symbols x of
              Some v \<Rightarrow> Inr (VInt v)
            | None \<Rightarrow> Inl (PyException NameError)))"

fun eval_ast :: "(string \<rightharpoonup> int) \<Rightarrow> expr \<Rightarrow> error + pyval" where
  "eval_ast symbols (ENum n) = Inr (VInt n)"
| "eval_ast symbols (EName x) = ns_lookup symbols x"
| "eval_ast symbols (EUn u e) = ebind (eval_ast symbols e) (un_op u)"
| "eval_ast symbols (EBin b l r) =
     ebind (eval_ast symbols l) (\<lambda>x. ebind (eval_ast symbols r) (\<lambda>y. bin_op b x y))"
| "eval_ast symbols (ECall f a) =
     ebind (eval_ast symbols f) (\<lambda>g. ebind (eval_ast symbols a) (\<lambda>x.
       case g of VFun h \<Rightarrow> call_builtin h x | _ \<Rightarrow> Inl (PyException TypeError)))"

definition py_eval :: "string \<Rightarrow> (string \<rightharpoonup> int) \<Rightarrow> error + pyval" where
  \<comment> \<open>\<open>eval(s, {"__builtins__": {}}, ns)\<close>\<close>
  "py_eval s symbols = ebind (py_parse s) (eval_ast symbols)"

definition eval_expr :: "string \<Rightarrow> (string \<rightharpoonup> int) \<Rightarrow> error + int" where
  \<comment> \<open>Every Python exception becomes the assembler's "Cannot evaluate expression".\<close>
  "eval_expr expr_str symbols =
     (let s = strip expr_str;
          s = sub_dollar s;
          s = sub_call ''lo'' ''__lo__('' False s;
          s = sub_call ''hi'' ''__hi__('' False s
      in case ebind (py_eval s symbols) py_int of
           Inr n \<Rightarrow> Inr n
         | Inl (PyException x) \<Rightarrow> Inl (AsmError CannotEvaluate)
         | Inl e \<Rightarrow> Inl e)"


subsection \<open>Source lines, registers and the opcode table\<close>

record source_line =
  filename :: string
  lineno :: nat
  label :: "string option"
  mnemonic :: "string option"
  operands :: "string list"
  raw :: string

definition truthy :: "string option \<Rightarrow> bool" where
  \<comment> \<open>Python's truth value of an attribute that is \<open>None\<close> or a string.\<close>
  "truthy x = (case x of None \<Rightarrow> False | Some s \<Rightarrow> s \<noteq> [])"

definition mnemonic_upper :: "source_line \<Rightarrow> error + string" where
  \<comment> \<open>\<open>sl.mnemonic.upper()\<close>\<close>
  "mnemonic_upper sl =
     (case mnemonic sl of None \<Rightarrow> Inl (PyException AttributeError) | Some m \<Rightarrow> Inr (upper m))"

definition is_register_syntax :: "string \<Rightarrow> bool" where
  \<comment> \<open>\<open>re.fullmatch(r'[Rr]\d+', s)\<close>\<close>
  "is_register_syntax s =
     (case s of
        [] \<Rightarrow> False
      | c # ds \<Rightarrow> (c = CHR ''R'' \<or> c = CHR ''r'') \<and> ds \<noteq> [] \<and> list_all is_digit ds)"

definition parse_register :: "string \<Rightarrow> error + int" where
  \<comment> \<open>Parse 'R0'..'R15' (case-insensitive). Digit strings beyond Python's conversion
      limit are left out.\<close>
  "parse_register tok =
     (if \<not> is_register_syntax (strip tok) then Inl (AsmError ExpectedRegister)
      else if 4000 < length (tl (strip tok)) then Inl OutsideFragment
      else (let n = int (nat_of_digits 10 (tl (strip tok)))
            in if n > 15 then Inl (AsmError RegisterRange) else Inr n))"

datatype encoding = Enc_3std | Enc_2reg | Enc_2noreg | Enc_lmar | Enc_cmp4 | Enc_djn4

definition OPCODES :: "(string \<times> int \<times> encoding) list" where
  "OPCODES = [
    (''ADD'', 0x00, Enc_3std), (''ADC'', 0x01, Enc_3std), (''SUB'', 0x02, Enc_3std),
    (''SBC'', 0x03, Enc_3std), (''AND'', 0x04, Enc_3std), (''OR'', 0x05, Enc_3std),
    (''NOR'', 0x06, Enc_3std), (''NAD'', 0x07, Enc_3std), (''XOR'', 0x08, Enc_3std),
    (''CMP'', 0x09, Enc_3std),
    (''ROL'', 0x0A, Enc_3std), (''SOL'', 0x0B, Enc_3std), (''SZL'', 0x0C, Enc_3std),
    (''RIL'', 0x0D, Enc_3std), (''ROR'', 0x0E, Enc_3std), (''SOR'', 0x0F, Enc_3std),
    (''SZR'', 0x10, Enc_3std), (''RIR'', 0x11, Enc_3std),
    (''INV'', 0x12, Enc_3std), (''INH'', 0x13, Enc_3std), (''INL'', 0x14, Enc_3std),
    (''INE'', 0x15, Enc_3std), (''INO'', 0x16, Enc_3std), (''IEH'', 0x17, Enc_3std),
    (''IOH'', 0x18, Enc_3std), (''IEL'', 0x19, Enc_3std), (''IOL'', 0x1A, Enc_3std),
    (''IFB'', 0x1B, Enc_3std), (''ILB'', 0x1C, Enc_3std), (''REV'', 0x1D, Enc_3std),
    (''RVL'', 0x1E, Enc_3std), (''RVH'', 0x1F, Enc_3std), (''RVE'', 0x20, Enc_3std),
    (''RVO'', 0x21, Enc_3std), (''RLE'', 0x22, Enc_3std), (''RHE'', 0x23, Enc_3std),
    (''RLO'', 0x24, Enc_3std), (''RHO'', 0x25, Enc_3std),
    (''JMP'', 0x26, Enc_2reg), (''JMZ'', 0x27, Enc_2reg), (''JMN'', 0x28, Enc_2reg),
    (''JMG'', 0x29, Enc_2reg), (''JMO'', 0x2A, Enc_2reg), (''JIE'', 0x2B, Enc_2reg),
    (''JIO'', 0x2C, Enc_2reg), (''JNE'', 0x38, Enc_2reg), (''JGE'', 0x39, Enc_2reg),
    (''JLE'', 0x3A, Enc_2reg),
    (''MOV'', 0x2D, Enc_3std), (''LMAR'', 0x2E, Enc_lmar), (''SMAR'', 0x2F, Enc_2reg),
    (''LOAD'', 0x30, Enc_2reg), (''STOR'', 0x31, Enc_2reg), (''IMAR'', 0x32, Enc_2noreg),
    (''DMAR'', 0x33, Enc_2noreg),
    (''ALE'', 0x34, Enc_cmp4), (''DJN'', 0x35, Enc_djn4), (''SLE'', 0x36, Enc_cmp4),
    (''SJN'', 0x37, Enc_cmp4),
    (''PUSH'', 0x3B, Enc_2reg), (''POP'', 0x3C, Enc_2reg), (''CALL'', 0x3D, Enc_2reg),
    (''RET'', 0x3E, Enc_2noreg)]"

definition SINGLE_OPERAND :: "string list" where
  "SINGLE_OPERAND = [''INV'', ''INH'', ''INL'', ''INE'', ''INO'', ''IEH'', ''IOH'', ''IEL'',
     ''IOL'', ''IFB'', ''ILB'', ''REV'', ''RVL'', ''RVH'', ''RVE'', ''RVO'', ''RLE'', ''RHE'',
     ''RLO'', ''RHO'']"

subsection \<open>Pass 1: assign addresses, collect labels\<close>

definition instruction_size :: "source_line \<Rightarrow> int" where
  "instruction_size sl =
     (case mnemonic sl of
        None \<Rightarrow> 0
      | Some m \<Rightarrow>
         (let mn = upper m in
          if mn = ''.ORG'' then 0
          else if mn = ''.EQU'' then 0
          else if mn = ''.BYTE'' then int (length (operands sl))
          else if mn = ''.WORD'' then int (length (operands sl)) * 2
          else if mn = ''.RESETVEC'' then 0
          else if mn = ''__LOADADDR_HI__'' then 0
          else (case map_of OPCODES mn of
                  None \<Rightarrow> 0
                | Some (opc, enc) \<Rightarrow>
                    if enc = Enc_3std then 3
                    else if enc \<in> {Enc_2reg, Enc_2noreg} then 2
                    else if enc = Enc_lmar then 3
                    else if enc \<in> {Enc_cmp4, Enc_djn4} then 4
                    else 0)))"

type_synonym symtab = "string \<rightharpoonup> int"

type_synonym located_line = "source_line \<times> int"

type_synonym p1_state = "symtab \<times> located_line list \<times> int"

definition bind_label :: "source_line \<Rightarrow> symtab \<Rightarrow> int \<Rightarrow> error + symtab" where
  \<comment> \<open>The first half of the loop body: \<open>if sl.label: ...\<close>\<close>
  "bind_label sl symbols lc =
     (if truthy (label sl) then
        (if symbols (the (label sl)) \<noteq> None then Inl (AsmError DuplicateLabel)
         else Inr (symbols(the (label sl) \<mapsto> lc)))
      else Inr symbols)"

definition pass1_step :: "symtab \<Rightarrow> p1_state \<Rightarrow> source_line \<Rightarrow> error + p1_state" where
  \<comment> \<open>One iteration of pass1's loop; the first argument is the table of predefined
      symbols, whose keys are \<open>_frozen\<close>. An \<open>AsmError\<close> of the evaluator is caught; leaving
      the modelled fragment is not an error of the program and is passed on.\<close>
  "pass1_step predefined st sl =
     (case st of (symbols0, located, lc) \<Rightarrow>
        ebind (bind_label sl symbols0 lc) (\<lambda>symbols.
          if truthy (mnemonic sl) then
            (let mn = upper (the (mnemonic sl)) in
             if mn = ''.ORG'' then
               (if operands sl = [] then Inl (AsmError OrgRequiresAddress)
                else (case eval_expr (operands sl ! 0) symbols of
                        Inr v \<Rightarrow> Inr (symbols, located, v)
                      | Inl (AsmError m) \<Rightarrow> Inr (symbols, located, lc)
                      | Inl e \<Rightarrow> Inl e))
             else if mn = ''.EQU'' then
               (if length (operands sl) < 2 then Inl (AsmError EquRequiresValue)
                else if predefined (operands sl ! 0) \<noteq> None then Inr (symbols, located, lc)
                else (case eval_expr (operands sl ! 1) symbols of
                        Inr v \<Rightarrow> Inr (symbols(operands sl ! 0 \<mapsto> v), located, lc)
                      | Inl (AsmError m) \<Rightarrow> Inr (symbols, located, lc)
                      | Inl e \<Rightarrow> Inl e))
             else Inr (symbols, located @ [(sl, lc)], lc + instruction_size sl))
          else Inr (symbols, located @ [(sl, lc)], lc)))"

fun pass1_loop :: "symtab \<Rightarrow> p1_state \<Rightarrow> source_line list \<Rightarrow> error + p1_state" where
  "pass1_loop predefined st [] = Inr st"
| "pass1_loop predefined st (sl # sls) =
     ebind (pass1_step predefined st sl) (\<lambda>st'. pass1_loop predefined st' sls)"

definition pass1 :: "source_line list \<Rightarrow> symtab \<Rightarrow> error + (symtab \<times> located_line list)" where
  "pass1 source_lines predefined =
     ebind (pass1_loop predefined (predefined, [], 0) source_lines)
       (\<lambda>(symbols, located, lc). Inr (symbols, located))"


subsection \<open>Pass 2: encode\<close>

definition py_bytes :: "int list \<Rightarrow> error + int list" where
  \<comment> \<open>\<open>bytes([...])\<close>: every element must be in \<open>range(256)\<close>.\<close>
  "py_bytes xs = (if list_all (\<lambda>x. 0 \<le> x \<and> x < 256) xs then Inr xs else Inl (PyException ValueError))"

definition encode_3std :: "int \<Rightarrow> source_line \<Rightarrow> symtab \<Rightarrow> error + int list" where
  "encode_3std opc sl symbols =
     ebind (mnemonic_upper sl) (\<lambda>mn.
       let ops = operands sl in
       if mn = ''MOV'' \<and> length ops = 2 \<and> upper (strip (ops ! 1)) = ''[MAR]'' then
         ebind (parse_register (ops ! 0)) (\<lambda>rd.
           py_bytes [opc, push_bit 6 3 OR push_bit 2 rd, 0x00])
       else if mn \<in> set SINGLE_OPERAND then
         (if length ops \<noteq> 1 then Inl (AsmError OperandCount)
          else ebind (parse_register (ops ! 0)) (\<lambda>rd.
            py_bytes [opc, push_bit 6 1 OR push_bit 2 rd, push_bit 4 rd OR 0x0, 0x00]))
       else if length ops = 3 then
         ebind (parse_register (ops ! 0)) (\<lambda>rd.
         ebind (parse_register (ops ! 1)) (\<lambda>rs1.
         ebind (parse_register (ops ! 2)) (\<lambda>rs2.
           py_bytes [opc, push_bit 6 0 OR push_bit 2 rd, push_bit 4 rs1 OR rs2, 0x00])))
       else if length ops = 2 then
         ebind (parse_register (ops ! 0)) (\<lambda>rd.
           let op2 = strip (ops ! 1);
               imm_str = (if op2 \<noteq> [] \<and> hd op2 = CHR ''#'' then tl op2 else op2)
           in if is_register_syntax (strip imm_str) then
                ebind (parse_register imm_str) (\<lambda>rs.
                  py_bytes [opc, push_bit 6 1 OR push_bit 2 rd, push_bit 4 rd OR rs, 0x00])
              else
                ebind (eval_expr imm_str symbols) (\<lambda>v.
                  py_bytes [opc, push_bit 6 2 OR push_bit 2 rd, v AND 0xFF, 0x00]))
       else if length ops = 1 then
         ebind (parse_register (ops ! 0)) (\<lambda>rd.
           py_bytes [opc, push_bit 6 1 OR push_bit 2 rd, push_bit 4 rd OR rd, 0x00])
       else Inl (AsmError OperandCount))"

definition encode_2reg :: "int \<Rightarrow> source_line \<Rightarrow> symtab \<Rightarrow> error + int list" where
  "encode_2reg opc sl symbols =
     ebind (mnemonic_upper sl) (\<lambda>mn.
       if length (operands sl) \<noteq> 1 then Inl (AsmError OperandCount)
       else ebind (parse_register (operands sl ! 0)) (\<lambda>rn. py_bytes [opc, push_bit 2 rn]))"

definition encode_2noreg :: "int \<Rightarrow> source_line \<Rightarrow> symtab \<Rightarrow> error + int list" where
  "encode_2noreg opc sl symbols =
     ebind (mnemonic_upper sl) (\<lambda>mn.
       if operands sl \<noteq> [] then Inl (AsmError OperandCount) else py_bytes [opc, 0x00])"

definition encode_lmar :: "int \<Rightarrow> source_line \<Rightarrow> symtab \<Rightarrow> error + int list" where
  "encode_lmar opc sl symbols =
     (if length (operands sl) \<noteq> 1 then Inl (AsmError OperandCount)
      else ebind (eval_expr (operands sl ! 0) symbols) (\<lambda>addr.
        if addr < 0 \<or> addr > 0xFFFF then Inl (AsmError LmarRange)
        else py_bytes [opc, drop_bit 8 addr AND 0xFF, addr AND 0xFF]))"

definition encode_cmp4 :: "int \<Rightarrow> source_line \<Rightarrow> symtab \<Rightarrow> error + int list" where
  "encode_cmp4 opc sl symbols =
     ebind (mnemonic_upper sl) (\<lambda>mn.
       let ops = operands sl in
       if length ops \<noteq> 4 then Inl (AsmError OperandCount)
       else
         ebind (parse_register (ops ! 0)) (\<lambda>rs1.
         ebind (parse_register (ops ! 1)) (\<lambda>rs2.
         ebind (parse_register (ops ! 2)) (\<lambda>rd.
         ebind (parse_register (ops ! 3)) (\<lambda>rjmp.
           py_bytes [opc, push_bit 4 rs1 OR rs2, push_bit 4 rd, push_bit 4 rjmp])))))"

definition encode_djn4 :: "int \<Rightarrow> source_line \<Rightarrow> symtab \<Rightarrow> error + int list" where
  "encode_djn4 opc sl symbols =
     (let ops = operands sl in
      if length ops \<noteq> 2 then Inl (AsmError OperandCount)
      else
        ebind (parse_register (ops ! 0)) (\<lambda>rs.
        ebind (parse_register (ops ! 1)) (\<lambda>rjmp.
          py_bytes [opc, push_bit 4 rs OR 0, push_bit 4 rs, push_bit 4 rjmp])))"

type_synonym memory = "(int \<times> int) list"

fun byte_data :: "string list \<Rightarrow> symtab \<Rightarrow> error + int list" where
  \<comment> \<open>The loop of \<open>.BYTE\<close>\<close>
  "byte_data [] symbols = Inr []"
| "byte_data (op # ops) symbols =
     ebind (eval_expr op symbols) (\<lambda>v.
       if v < -128 \<or> v > 255 then Inl (AsmError ByteRange)
       else ebind (byte_data ops symbols) (\<lambda>rest. Inr ((v AND 0xFF) # rest)))"

fun word_data :: "string list \<Rightarrow> symtab \<Rightarrow> error + int list" where
  \<comment> \<open>The loop of \<open>.WORD\<close>: little-endian\<close>
  "word_data [] symbols = Inr []"
| "word_data (op # ops) symbols =
     ebind (eval_expr op symbols) (\<lambda>v0.
       let v = v0 AND 0xFFFF in
       ebind (word_data ops symbols) (\<lambda>rest.
         Inr ((v AND 0xFF) # (drop_bit 8 v AND 0xFF) # rest)))"

definition py_index :: "'a list \<Rightarrow> nat \<Rightarrow> error + 'a" where
  \<comment> \<open>\<open>ops[i]\<close> for a literal index \<open>i \<ge> 0\<close>\<close>
  "py_index xs i = (if i < length xs then Inr (xs ! i) else Inl (PyException IndexError))"

type_synonym directive_result = "(int list option \<times> int option) \<times> symtab \<times> memory \<times> int list"

definition encode_directive ::
  "source_line \<Rightarrow> symtab \<Rightarrow> memory \<Rightarrow> int list \<Rightarrow> error + directive_result" where
  \<comment> \<open>Returns \<open>(bytes_to_emit, new_lc)\<close>, each possibly \<open>None\<close>, with the symbol table, the
      memory and the global list of warnings as the call leaves them (a warning is
      recorded by the value it reports).\<close>
  "encode_directive sl symbols mem warnings =
     ebind (mnemonic_upper sl) (\<lambda>mn.
       let ops = operands sl in
       if mn = ''.ORG'' then
         ebind (py_index ops 0) (\<lambda>e.
         ebind (eval_expr e symbols) (\<lambda>addr.
           Inr ((Some [], Some addr), symbols, mem, warnings)))
       else if mn = ''.EQU'' then
         ebind (py_index ops 0) (\<lambda>name.
         ebind (py_index ops 1) (\<lambda>e.
         ebind (eval_expr e symbols) (\<lambda>v.
           Inr ((Some [], None), symbols(name \<mapsto> v), mem, warnings))))
       else if mn = ''.BYTE'' then
         ebind (byte_data ops symbols) (\<lambda>data. Inr ((Some data, None), symbols, mem, warnings))
       else if mn = ''.WORD'' then
         ebind (word_data ops symbols) (\<lambda>data. Inr ((Some data, None), symbols, mem, warnings))
       else if mn = ''.RESETVEC'' then
         (if length ops \<noteq> 1 then Inl (AsmError ResetvecOperands)
          else ebind (eval_expr (ops ! 0) symbols) (\<lambda>v.
            let addr = v AND 0xFFFF;
                mem1 = AList.update 0xFFFC (addr AND 0xFF) mem;
                mem2 = AList.update 0xFFFD (drop_bit 8 addr AND 0xFF) mem1
            in Inr ((Some [], None), symbols, mem2, warnings)))
       else if mn = ''__LOADADDR_HI__'' then
         ebind (py_index ops 0) (\<lambda>rn.
         ebind (py_index ops 1) (\<lambda>e.
           case eval_expr e symbols of
             Inl (AsmError m) \<Rightarrow> Inr ((Some [], None), symbols, mem, warnings)
           | Inl x \<Rightarrow> Inl x
           | Inr v \<Rightarrow>
               Inr ((Some [], None), symbols, mem,
                    if v > 0xFF then warnings @ [v] else warnings)))
       else Inr ((None, None), symbols, mem, warnings))"

fun write_bytes :: "memory \<Rightarrow> int \<Rightarrow> int list \<Rightarrow> memory" where
  \<comment> \<open>\<open>for i, b in enumerate(data): memory[lc + i] = b\<close>\<close>
  "write_bytes mem lc [] = mem"
| "write_bytes mem lc (b # bs) = write_bytes (AList.update lc b mem) (lc + 1) bs"

definition wrap_exception :: "error + 'a \<Rightarrow> error + 'a" where
  \<comment> \<open>\<open>except AsmError: raise\<close> / \<open>except Exception as e: raise AsmError(str(e), ...)\<close>\<close>
  "wrap_exception r =
     (case r of Inl (PyException x) \<Rightarrow> Inl (AsmError WrappedException) | _ \<Rightarrow> r)"

definition encode_instruction :: "int \<Rightarrow> encoding \<Rightarrow> source_line \<Rightarrow> symtab \<Rightarrow> error + int list" where
  \<comment> \<open>The dispatch on the encoding class, inside pass2's \<open>try\<close>.\<close>
  "encode_instruction opc enc sl symbols =
     wrap_exception
       (case enc of
          Enc_3std \<Rightarrow> encode_3std opc sl symbols
        | Enc_2reg \<Rightarrow> encode_2reg opc sl symbols
        | Enc_2noreg \<Rightarrow> encode_2noreg opc sl symbols
        | Enc_lmar \<Rightarrow> encode_lmar opc sl symbols
        | Enc_cmp4 \<Rightarrow> encode_cmp4 opc sl symbols
        | Enc_djn4 \<Rightarrow> encode_djn4 opc sl symbols)"

type_synonym listing = "(int \<times> int list \<times> source_line) list"

type_synonym p2_state = "symtab \<times> memory \<times> listing \<times> int list"

definition is_equ_line :: "source_line \<Rightarrow> bool" where
  \<comment> \<open>\<open>sl.mnemonic and sl.mnemonic.upper() == '.EQU' and len(sl.operands) >= 2\<close>\<close>
  "is_equ_line sl \<longleftrightarrow>
     truthy (mnemonic sl) \<and> upper (the (mnemonic sl)) = ''.EQU'' \<and> length (operands sl) \<ge> 2"

definition equ_names :: "located_line list \<Rightarrow> string list" where
  "equ_names located = map (\<lambda>(sl, addr). operands sl ! 0) (filter (\<lambda>(sl, addr). is_equ_line sl) located)"

fun resolve_equs :: "symtab \<Rightarrow> located_line list \<Rightarrow> symtab \<Rightarrow> error + symtab" where
  \<comment> \<open>pass2's second loop over \<open>located\<close>; the first argument is its \<open>predefined\<close>.\<close>
  "resolve_equs predefined [] symbols = Inr symbols"
| "resolve_equs predefined ((sl, addr) # rest) symbols =
     (if is_equ_line sl then
        (if predefined (operands sl ! 0) \<noteq> None then resolve_equs predefined rest symbols
         else (case eval_expr (operands sl ! 1) symbols of
                 Inr v \<Rightarrow> resolve_equs predefined rest (symbols(operands sl ! 0 \<mapsto> v))
               | Inl (AsmError m) \<Rightarrow> resolve_equs predefined rest symbols
               | Inl e \<Rightarrow> Inl e))
      else resolve_equs predefined rest symbols)"

definition pass2_step :: "p2_state \<Rightarrow> located_line \<Rightarrow> error + p2_state" where
  \<comment> \<open>One iteration of pass2's encoding loop.\<close>
  "pass2_step st entry =
     (case st of (symbols, mem, lst, warnings) \<Rightarrow>
      case entry of (sl, addr) \<Rightarrow>
        let lc = addr in
        if mnemonic sl = None then Inr (symbols, mem, lst @ [(lc, [], sl)], warnings)
        else
          ebind (encode_directive sl symbols mem warnings) (\<lambda>(dir_result, symbols', mem', warnings').
            case fst dir_result of
              Some data \<Rightarrow>
                Inr (symbols', write_bytes mem' lc data, lst @ [(lc, data, sl)], warnings')
            | None \<Rightarrow>
                (case map_of OPCODES (upper (the (mnemonic sl))) of
                   None \<Rightarrow> Inl (AsmError UnknownMnemonic)
                 | Some (opc, enc) \<Rightarrow>
                     ebind (encode_instruction opc enc sl symbols') (\<lambda>data.
                       Inr (symbols', write_bytes mem' lc data, lst @ [(lc, data, sl)], warnings')))))"

fun pass2_loop :: "p2_state \<Rightarrow> located_line list \<Rightarrow> error + p2_state" where
  "pass2_loop st [] = Inr st"
| "pass2_loop st (entry # rest) = ebind (pass2_step st entry) (\<lambda>st'. pass2_loop st' rest)"

definition pass2 :: "located_line list \<Rightarrow> symtab \<Rightarrow> error + (memory \<times> listing \<times> symtab)" where
  \<comment> \<open>Returns \<open>(memory, listing)\<close> and the caller's symbol table as the call leaves it.\<close>
  "pass2 located symbols =
     (let predefined = (\<lambda>k. if k \<in> set (equ_names located) then None else symbols k)
      in ebind (resolve_equs predefined located symbols) (\<lambda>symbols1.
         ebind (pass2_loop (symbols1, [], [], []) located) (\<lambda>(symbols2, mem, lst, warnings).
           Inr (mem, lst, symbols2))))"

subsection \<open>Binary writer\<close>

definition setitem :: "int list \<Rightarrow> int \<Rightarrow> int \<Rightarrow> error + int list" where
  \<comment> \<open>\<open>image[addr] = byte\<close> on a bytearray: a negative index counts from the end.\<close>
  "setitem img addr byte =
     (let n = int (length img);
          j = (if addr < 0 then addr + n else addr)
      in if j < 0 \<or> n \<le> j then Inl (PyException IndexError)
         else if byte < 0 \<or> 255 < byte then Inl (PyException ValueError)
         else Inr (img[nat j := byte]))"

fun fill_image :: "int list \<Rightarrow> memory \<Rightarrow> error + int list" where
  "fill_image img [] = Inr img"
| "fill_image img ((addr, byte) # items) =
     ebind (setitem img addr byte) (\<lambda>img'. fill_image img' items)"

definition max_key :: "memory \<Rightarrow> int" where
  \<comment> \<open>\<open>max(memory.keys())\<close> of a memory that is not empty\<close>
  "max_key mem = foldl max (fst (hd mem)) (map fst (tl mem))"

definition write_binary :: "memory \<Rightarrow> error + int list" where
  \<comment> \<open>The bytes of the file that \<open>write_binary(memory, out_path)\<close> writes.\<close>
  "write_binary mem =
     (if mem = [] then Inr []
      else (let size = max_key mem + 1
            in if size < 0 then Inl (PyException ValueError)
               else fill_image (replicate (nat size) 0) mem))"

subsection \<open>The pipeline after the preprocessor\<close>

definition assemble ::
  "source_line list \<Rightarrow> symtab \<Rightarrow> symtab \<Rightarrow> error + (memory \<times> listing \<times> symtab)" where
  \<comment> \<open>\<open>main()\<close> between the preprocessor and the writers (and the tests' helper \<open>asm\<close>):
      pass 1 on the predefines, then
      \<open>symbols.update({k: v for k, v in seed_symbols.items() if k not in symbols})\<close> with the
      preprocessor's defines, then pass 2.\<close>
  "assemble source_lines predefines seed_symbols =
     ebind (pass1 source_lines predefines) (\<lambda>(symbols, located).
       pass2 located (seed_symbols ++ symbols))"

definition src :: "nat \<Rightarrow> string option \<Rightarrow> string option \<Rightarrow> string list \<Rightarrow> source_line" where
  \<comment> \<open>\<open>SourceLine('<string>', lineno, label, mnemonic, operands, '')\<close>\<close>
  "src n lbl mn ops =
     \<lparr>filename = ''<string>'', lineno = n, label = lbl, mnemonic = mn, operands = ops, raw = []\<rparr>"

definition assembled_memory :: "source_line list \<Rightarrow> error + memory" where
  \<comment> \<open>The memory dictionary of an assembly without predefines (the tests' \<open>asm(src)\<close>).\<close>
  "assembled_memory source_lines =
     ebind (assemble source_lines Map.empty Map.empty) (\<lambda>(mem, lst, symbols). Inr mem)"

definition c2_program :: "source_line list" where
  \<comment> \<open>\<open>.org 0\<close> / \<open>LMAR target\<close> / \<open>RET\<close> / \<open>target: ADD R1,#0\<close>, as \<open>_parse_one\<close> reads the lines\<close>
  "c2_program =
     [src 1 None (Some ''.ORG'') [''0''],
      src 2 None (Some ''LMAR'') [''target''],
      src 3 None (Some ''RET'') [],
      src 4 (Some ''target'') (Some ''ADD'') [''R1'', ''#0'']]"

definition c3_program :: "source_line list" where
  \<comment> \<open>\<open>.equ X, fwd\<close> / \<open>ADD R1, #X\<close> / \<open>fwd: RET\<close>\<close>
  "c3_program =
     [src 1 None (Some ''.EQU'') [''X'', ''fwd''],
      src 2 None (Some ''ADD'') [''R1'', ''#X''],
      src 3 (Some ''fwd'') (Some ''RET'') []]"

definition c5_program :: "source_line list" where
  \<comment> \<open>\<open>.org nowhere\<close> / \<open>RET\<close>, with no symbol \<open>nowhere\<close> anywhere\<close>
  "c5_program =
     [src 1 None (Some ''.ORG'') [''nowhere''],
      src 2 None (Some ''RET'') []]"

definition layout :: "source_line list \<Rightarrow> error + (string option \<times> int) list" where
  \<comment> \<open>The located lines of pass 1 without predefines, each as its mnemonic and address.\<close>
  "layout source_lines =
     ebind (pass1 source_lines Map.empty) (\<lambda>(symbols, located).
       Inr (map (\<lambda>(sl, addr). (mnemonic sl, addr)) located))"

definition mode_bits :: "int list \<Rightarrow> int" where
  \<comment> \<open>Bits 7:6 of the second byte of an encoded instruction.\<close>
  "mode_bits bs = drop_bit 6 (bs ! 1) AND 3"

definition strip_hash :: "string \<Rightarrow> string" where
  \<comment> \<open>encode\_3std's \<open>imm_str = op2[1:] if op2.startswith('#') else op2\<close> on \<open>op2 = ops[1].strip()\<close>\<close>
  "strip_hash operand =
     (let op2 = strip operand in if op2 \<noteq> [] \<and> hd op2 = CHR ''#'' then tl op2 else op2)"

definition mov_mar_form :: "source_line \<Rightarrow> bool" where
  \<comment> \<open>encode\_3std's test for \<open>MOV Rd, [MAR]\<close>\<close>
  "mov_mar_form sl \<longleftrightarrow>
     (case mnemonic sl of
        None \<Rightarrow> False
      | Some m \<Rightarrow> upper m = ''MOV'' \<and> length (operands sl) = 2
                  \<and> upper (strip (operands sl ! 1)) = ''[MAR]'')"

definition w1_byte :: "int \<Rightarrow> int \<Rightarrow> int" where
  \<comment> \<open>The second byte of a 3std instruction, \<open>(mode << 6) | (rd << 2)\<close>\<close>
  "w1_byte mode rd = push_bit 6 mode OR push_bit 2 rd"



definition is_directive :: "string \<Rightarrow> source_line \<Rightarrow> bool" where
  \<comment> \<open>\<open>sl.mnemonic\<close> is not \<open>None\<close> and \<open>sl.mnemonic.upper()\<close> is the given name\<close>
  "is_directive name sl \<longleftrightarrow> (case mnemonic sl of None \<Rightarrow> False | Some m \<Rightarrow> upper m = name)"

definition c7_program :: "source_line list" where
  \<comment> \<open>\<open>.equ X, 10\<close> / \<open>ADD R1, #X\<close> (assembled with the predefine \<open>X = 99\<close>)\<close>
  "c7_program =
     [src 1 None (Some ''.EQU'') [''X'', ''10''],
      src 2 None (Some ''ADD'') [''R1'', ''#X'']]"

definition c7_label_line :: source_line where
  \<comment> \<open>\<open>X: RET\<close>\<close>
  "c7_label_line = src 1 (Some ''X'') (Some ''RET'') []"

definition c8_first :: source_line where
  \<comment> \<open>\<open>.resetvec 0x0100\<close>\<close>
  "c8_first = src 1 None (Some ''.RESETVEC'') [''0x0100'']"

definition c8_last :: source_line where
  \<comment> \<open>\<open>.resetvec 0x0200\<close>\<close>
  "c8_last = src 2 None (Some ''.RESETVEC'') [''0x0200'']"

definition c8_ret :: source_line where
  \<comment> \<open>\<open>RET\<close>\<close>
  "c8_ret = src 3 None (Some ''RET'') []"

definition emitted :: "listing \<Rightarrow> (int \<times> int) list" where
  \<comment> \<open>Of every listing record, the address and the number of bytes emitted there.\<close>
  "emitted lst = map (\<lambda>(c, data, sl). (c, int (length data))) lst"

section \<open>Properties\<close>

subsection \<open>C2: the forward-label scenario\<close>

text \<open>
  C2 (as stated in the specification): assembling \<open>.org 0; LMAR target; RET; target: ADD R1,#0\<close>
  gives exactly the bytes \<open>2E 00 05 3E 00 00 08 00\<close> at addresses 0 to 7 and nothing else.
  The code does not: the second byte of \<open>ADD R1,#0\<close> is \<open>(0b10 << 6) | (1 << 2) = 0x84\<close>, and
  the encoder's fourth byte is written to address 8.
\<close>

theorem c2_spec_bytes_counterexample:
  "assembled_memory c2_program \<noteq>
     Inr [(0, 0x2E), (1, 0x00), (2, 0x05), (3, 0x3E), (4, 0x00), (5, 0x00), (6, 0x08), (7, 0x00)]
   \<and> ebind (assembled_memory c2_program) (\<lambda>mem. Inr (map_of mem 6, map_of mem 8)) =
       Inr (Some 0x84, Some 0x00)"
  by code_simp

text \<open>
  C2 (amended): the assembly gives the nine bytes \<open>2E 00 05 3E 00 00 84 00 00\<close> at addresses
  0 to 8 (the operand of LMAR is the forward label's address 5) and no byte at any other
  address.
\<close>

theorem c2_forward_label_image:
  "assembled_memory c2_program =
     Inr [(0, 0x2E), (1, 0x00), (2, 0x05), (3, 0x3E), (4, 0x00), (5, 0x00), (6, 0x84), (7, 0x00),
          (8, 0x00)]"
  by code_simp

subsection \<open>C6: division in the expression evaluator\<close>











subsection \<open>C3: a deferred \<open>.equ\<close>\<close>

text \<open>
  C3: a \<open>.equ NAME, expr\<close> that pass 1 could not evaluate is evaluated again by pass 2 before
  encoding, and an instruction that uses \<open>NAME\<close> encodes with that value. The code of pass 2
  has the loop for it, but pass 1 never puts a \<open>.equ\<close> line on the list pass 2 walks: in
  \<open>.equ X, fwd\<close> / \<open>ADD R1, #X\<close> / \<open>fwd: RET\<close> the located lines are the two instructions only, and
  the assembly stops at \<open>ADD\<close> with "Cannot evaluate expression".
\<close>

theorem c3_deferred_equ_is_lost:
  "layout c3_program = Inr [(Some ''ADD'', 0), (Some ''RET'', 3)]
   \<and> assembled_memory c3_program = Inl (AsmError CannotEvaluate)"
  by code_simp

subsection \<open>C5: a \<open>.org\<close> that cannot be evaluated\<close>

text \<open>
  C5: when the expression of a \<open>.org\<close> cannot be evaluated in pass 1, the location counter
  stays as it is and pass 2 raises the error. Pass 1 does the first; but it does not put
  the \<open>.org\<close> line on the list pass 2 walks, so nothing evaluates the expression again:
  \<open>.org nowhere\<close> / \<open>RET\<close> assembles, with \<open>RET\<close> at address 0.
\<close>

theorem c5_unresolved_org_assembles:
  "layout c5_program = Inr [(Some ''RET'', 0)]
   \<and> assembled_memory c5_program = Inr [(0, 0x3E), (1, 0x00)]"
  by code_simp

subsection \<open>C9: the image writer\<close>

lemma max_key_Max: "mem \<noteq> [] \<Longrightarrow> max_key mem = Max (fst ` set mem)"
proof -
  assume "mem \<noteq> []"
  then obtain p ps where m: "mem = p # ps" by (cases mem) auto
  have "foldl max (fst p) (map fst ps) = fold max (map fst ps) (fst p)"
    by (simp add: foldl_conv_fold max.commute)
  also have "\<dots> = Max (set (fst p # map fst ps))" by (simp only: Max.set_eq_fold)
  finally show ?thesis by (simp add: m max_key_def)
qed

lemma fill_image_spec:
  "distinct (map fst items) \<Longrightarrow>
   \<forall>(a, v) \<in> set items. 0 \<le> a \<and> a < int (length img) \<and> 0 \<le> v \<and> v < 256 \<Longrightarrow>
   fill_image img items =
     Inr (map (\<lambda>k. case map_of items (int k) of Some v \<Rightarrow> v | None \<Rightarrow> img ! k) [0..<length img])"
proof (induction items arbitrary: img)
  case Nil
  then show ?case by (simp add: map_nth)
next
  case (Cons p items)
  obtain a v where p: "p = (a, v)" by (cases p)
  from Cons.prems p have a: "0 \<le> a" "a < int (length img)" "0 \<le> v" "v < 256"
    and d: "distinct (map fst items)" and na: "a \<notin> fst ` set items"
    and rest: "\<forall>(a, v) \<in> set items. 0 \<le> a \<and> a < int (length img) \<and> 0 \<le> v \<and> v < 256"
    by auto
  have s: "setitem img a v = Inr (img[nat a := v])"
    using a by (simp add: setitem_def Let_def)
  have ih: "fill_image (img[nat a := v]) items =
     Inr (map (\<lambda>k. case map_of items (int k) of Some v \<Rightarrow> v | None \<Rightarrow> (img[nat a := v]) ! k)
            [0..<length (img[nat a := v])])"
    using Cons.IH[OF d, of "img[nat a := v]"] rest by simp
  have none: "map_of items a = None" using na by (simp add: map_of_eq_None_iff)
  have "map (\<lambda>k. case map_of items (int k) of Some v \<Rightarrow> v | None \<Rightarrow> (img[nat a := v]) ! k) [0..<length img]
      = map (\<lambda>k. case map_of ((a, v) # items) (int k) of Some v \<Rightarrow> v | None \<Rightarrow> img ! k) [0..<length img]"
  proof (rule map_cong[OF refl])
    fix k assume "k \<in> set [0..<length img]"
    then have k: "k < length img" by simp
    show "(case map_of items (int k) of Some v \<Rightarrow> v | None \<Rightarrow> (img[nat a := v]) ! k)
        = (case map_of ((a, v) # items) (int k) of Some v \<Rightarrow> v | None \<Rightarrow> img ! k)"
    proof (cases "int k = a")
      case True
      then have "nat a = k" by simp
      with True none k show ?thesis by simp
    next
      case False
      then have "nat a \<noteq> k" using a by auto
      with False k show ?thesis by (simp split: option.splits)
    qed
  qed
  with s ih p show ?case by (simp add: ebind_def)
qed

text \<open>
  C9: for every memory map (a dictionary, so no address occurs twice; addresses are not
  negative and values are bytes), the image writer produces a file of \<open>max address + 1\<close>
  bytes (none when the map is empty) whose byte at offset \<open>k\<close> is the value mapped at address
  \<open>k\<close>, and \<open>0x00\<close> where nothing is mapped.
\<close>

theorem c9_write_binary_image:
  assumes "distinct (map fst mem)"
    and "\<forall>(a, v) \<in> set mem. 0 \<le> a \<and> 0 \<le> v \<and> v < 256"
  shows "write_binary mem =
     Inr (map (\<lambda>k. case map_of mem (int k) of Some v \<Rightarrow> v | None \<Rightarrow> 0)
            [0..<(if mem = [] then 0 else nat (Max (fst ` set mem) + 1))])"
proof (cases "mem = []")
  case True
  then show ?thesis by (simp add: write_binary_def)
next
  case False
  let ?n = "nat (Max (fst ` set mem) + 1)"
  have fin: "finite (fst ` set mem)" by simp
  have bound: "\<forall>(a, v) \<in> set mem. 0 \<le> a \<and> a < int (length (replicate ?n (0::int))) \<and> 0 \<le> v \<and> v < 256"
  proof (clarify)
    fix a v assume av: "(a, v) \<in> set mem"
    then have "a \<le> Max (fst ` set mem)" using fin by (intro Max_ge) force+
    with av assms(2) show "0 \<le> a \<and> a < int (length (replicate ?n (0::int))) \<and> 0 \<le> v \<and> v < 256"
      by auto
  qed
  have pos: "0 \<le> Max (fst ` set mem) + 1"
  proof -
    obtain a v where av: "(a, v) \<in> set mem" using False by (cases mem) auto
    then have "a \<le> Max (fst ` set mem)" using fin by (intro Max_ge) force+
    moreover have "0 \<le> a" using av assms(2) by auto
    ultimately show ?thesis by simp
  qed
  have "fill_image (replicate ?n 0) mem =
     Inr (map (\<lambda>k. case map_of mem (int k) of Some v \<Rightarrow> v | None \<Rightarrow> (replicate ?n (0::int)) ! k)
            [0..<length (replicate ?n (0::int))])"
    by (rule fill_image_spec[OF assms(1) bound])
  also have "map (\<lambda>k. case map_of mem (int k) of Some v \<Rightarrow> v | None \<Rightarrow> (replicate ?n (0::int)) ! k)
            [0..<length (replicate ?n (0::int))]
      = map (\<lambda>k. case map_of mem (int k) of Some v \<Rightarrow> v | None \<Rightarrow> 0) [0..<?n]"
    by (auto split: option.splits)
  finally show ?thesis using False pos by (simp add: write_binary_def max_key_Max Let_def)
qed

theorem c9_write_binary_image_witness:
  "write_binary [(0, 0xAA), (4, 0xBB)] = Inr [0xAA, 0x00, 0x00, 0x00, 0xBB]"
proof -
  have d: "distinct (map fst [(0::int, 0xAA::int), (4, 0xBB)])" by simp
  have r: "\<forall>(a, v) \<in> set [(0::int, 0xAA::int), (4, 0xBB)]. 0 \<le> a \<and> 0 \<le> v \<and> v < 256" by simp
  have e: "map (\<lambda>k. case map_of [(0, 0xAA), (4, 0xBB::int)] (int k) of Some v \<Rightarrow> v | None \<Rightarrow> 0)
            [0..<(if [(0::int, 0xAA), (4, 0xBB::int)] = [] then 0
                  else nat (Max (fst ` set [(0::int, 0xAA::int), (4, 0xBB)]) + 1))]
           = [0xAA, 0x00, 0x00, 0x00, 0xBB]"
    by code_simp
  show ?thesis using c9_write_binary_image[OF d r] unfolding e .
qed

subsection \<open>C1: the mode bits of the 3std family\<close>

lemma parse_register_range: "parse_register t = Inr n \<Longrightarrow> 0 \<le> n \<and> n \<le> 15"
  by (auto simp: parse_register_def Let_def split: if_splits)

lemma opcode_is_byte: "map_of OPCODES mn = Some (opc, e) \<Longrightarrow> 0 \<le> opc \<and> opc < 256"
proof -
  assume "map_of OPCODES mn = Some (opc, e)"
  then have "(mn, opc, e) \<in> set OPCODES" by (rule map_of_SomeD)
  then show ?thesis unfolding OPCODES_def by auto
qed


lemma reg_cases: "0 \<le> (n::int) \<Longrightarrow> n \<le> 15 \<Longrightarrow> n \<in> set [0 .. 15]"
  by simp

lemma dst_byte:
  assumes "0 \<le> (rd::int)" "rd \<le> 15" "m \<in> {0, 1, 2, 3}"
  shows "0 \<le> push_bit 6 m OR push_bit 2 rd \<and> push_bit 6 m OR push_bit 2 rd < 256
         \<and> drop_bit 6 (push_bit 6 m OR push_bit 2 rd) AND 3 = m"
  using reg_cases[OF assms(1,2)] assms(3) by (auto simp: upto.simps)

lemma src_byte:
  assumes "0 \<le> (a::int)" "a \<le> 15" "0 \<le> (b::int)" "b \<le> 15"
  shows "0 \<le> push_bit 4 a OR b \<and> push_bit 4 a OR b < 256"
proof -
  have "push_bit 4 a < 2 ^ 8" using assms by (simp add: push_bit_eq_mult)
  moreover have "b < 2 ^ 8" using assms by simp
  moreover have "0 \<le> push_bit 4 a" using assms by simp
  ultimately have "push_bit 4 a OR b < 2 ^ 8" using OR_upper[of "push_bit 4 a" 8 b] by blast
  then show ?thesis using assms by simp
qed

lemma low_byte: "0 \<le> (v::int) AND 0xFF \<and> v AND 0xFF < 256"
proof -
  have "v AND 255 \<le> 255" by (rule AND_upper2) simp
  then show ?thesis by simp
qed

lemma upper_char_bracket: "upper_char c = CHR ''['' \<Longrightarrow> c = CHR ''[''"
  unfolding upper_char_def by (simp split: if_splits)

lemma strip_hash_encode:
  "(let op2 = strip operand; imm_str = (if op2 \<noteq> [] \<and> hd op2 = CHR ''#'' then tl op2 else op2) in f imm_str)
   = f (strip_hash operand)"
  by (simp add: strip_hash_def Let_def)

lemma strip_keeps_head: "\<not> is_space c \<Longrightarrow> strip (c # cs) \<noteq> [] \<and> hd (strip (c # cs)) = c"
proof -
  assume n: "\<not> is_space c"
  have "dropWhile is_space (rev cs @ [c]) \<noteq> [] \<and> last (dropWhile is_space (rev cs @ [c])) = c"
    using n by (induction "rev cs" arbitrary: cs) (auto simp: dropWhile_append)
  then show ?thesis using n by (simp add: strip_def hd_rev)
qed

lemma mar_not_register:
  assumes "upper (strip operand) = ''[MAR]''"
  shows "\<not> is_register_syntax (strip (strip_hash operand))"
proof -
  from assms obtain c cs where s: "strip operand = c # cs" and c: "upper_char c = CHR ''[''"
    by (cases "strip operand") (auto simp: upper_def)
  from c have c': "c = CHR ''[''" by (rule upper_char_bracket)
  then have h: "strip_hash operand = c # cs" using s by (simp add: strip_hash_def)
  have "\<not> is_space c" using c' by (simp add: is_space_def)
  from strip_keeps_head[OF this, of cs] c' h show ?thesis
    by (cases "strip (c # cs)") (auto simp: is_register_syntax_def)
qed

lemma w1_byte_ok:
  assumes "0 \<le> rd" "rd \<le> 15" "m \<in> {0, 1, 2, 3}"
  shows "0 \<le> w1_byte m rd" "w1_byte m rd < 256" "drop_bit 6 (w1_byte m rd) AND 3 = m"
  using dst_byte[OF assms] by (simp_all add: w1_byte_def)

lemma py_bytes_ok: "list_all (\<lambda>x. 0 \<le> x \<and> x < 256) xs \<Longrightarrow> py_bytes xs = Inr xs"
  by (simp add: py_bytes_def)

lemma parse_register_syntax: "parse_register t = Inr n \<Longrightarrow> is_register_syntax (strip t)"
  by (auto simp: parse_register_def split: if_splits)

lemma mov_not_single: "''MOV'' \<notin> set SINGLE_OPERAND"
  by (simp add: SINGLE_OPERAND_def)

text \<open>
  C1 (amended): for every instruction of the 3std family the mode bits are chosen by the
  operand shape. For a mnemonic outside the single-operand bit-manipulation set: three
  register operands give mode 00 with third byte \<open>(Rs1<<4)|Rs2\<close>; two operands whose second,
  \<^emph>\<open>after an optional leading \<open>#\<close> is removed\<close>, is a register give mode 01 with third byte
  \<open>(Rd<<4)|Rs\<close>; two operands whose second, after an optional leading \<open>#\<close> is removed, does
  not match the register syntax (and is not MOV's \<open>[MAR]\<close>) give mode 10 with third byte
  \<open>imm & 0xFF\<close>. \<open>MOV Rd, [MAR]\<close> gives mode 11 (three bytes). A single-operand
  bit-manipulation mnemonic with one register operand gives mode 01, and with any other
  number of operands the encoder raises the operand-count error.
\<close>

theorem c1_mode_by_operand_shape:
  assumes m: "mnemonic sl = Some m"
    and opc: "map_of OPCODES (upper m) = Some (opc, Enc_3std)"
  shows
    "(upper m \<notin> set SINGLE_OPERAND \<longrightarrow> operands sl = [d, s1, s2] \<longrightarrow>
        parse_register d = Inr rd \<longrightarrow> parse_register s1 = Inr rs1 \<longrightarrow> parse_register s2 = Inr rs2 \<longrightarrow>
        encode_3std opc sl symbols = Inr [opc, w1_byte 0 rd, push_bit 4 rs1 OR rs2, 0x00]
        \<and> mode_bits [opc, w1_byte 0 rd, push_bit 4 rs1 OR rs2, 0x00] = 0)
   \<and> (upper m \<notin> set SINGLE_OPERAND \<longrightarrow> operands sl = [d, o2] \<longrightarrow>
        parse_register d = Inr rd \<longrightarrow> parse_register (strip_hash o2) = Inr rs \<longrightarrow>
        encode_3std opc sl symbols = Inr [opc, w1_byte 1 rd, push_bit 4 rd OR rs, 0x00]
        \<and> mode_bits [opc, w1_byte 1 rd, push_bit 4 rd OR rs, 0x00] = 1)
   \<and> (upper m \<notin> set SINGLE_OPERAND \<longrightarrow> \<not> mov_mar_form sl \<longrightarrow> operands sl = [d, o2] \<longrightarrow>
        parse_register d = Inr rd \<longrightarrow> \<not> is_register_syntax (strip (strip_hash o2)) \<longrightarrow>
        eval_expr (strip_hash o2) symbols = Inr v \<longrightarrow>
        encode_3std opc sl symbols = Inr [opc, w1_byte 2 rd, v AND 0xFF, 0x00]
        \<and> mode_bits [opc, w1_byte 2 rd, v AND 0xFF, 0x00] = 2)
   \<and> (mov_mar_form sl \<longrightarrow> parse_register (operands sl ! 0) = Inr rd \<longrightarrow>
        encode_3std opc sl symbols = Inr [opc, w1_byte 3 rd, 0x00]
        \<and> mode_bits [opc, w1_byte 3 rd, 0x00] = 3)
   \<and> (upper m \<in> set SINGLE_OPERAND \<longrightarrow> operands sl = [d] \<longrightarrow> parse_register d = Inr rd \<longrightarrow>
        encode_3std opc sl symbols = Inr [opc, w1_byte 1 rd, push_bit 4 rd, 0x00]
        \<and> mode_bits [opc, w1_byte 1 rd, push_bit 4 rd, 0x00] = 1)
   \<and> (upper m \<in> set SINGLE_OPERAND \<longrightarrow> length (operands sl) \<noteq> 1 \<longrightarrow>
        encode_3std opc sl symbols = Inl (AsmError OperandCount))"
proof -
  note ob = opcode_is_byte[OF opc]
  have mu: "mnemonic_upper sl = Inr (upper m)" by (simp add: mnemonic_upper_def m)
  have three: "encode_3std opc sl symbols = Inr [opc, w1_byte 0 rd, push_bit 4 rs1 OR rs2, 0x00]
        \<and> mode_bits [opc, w1_byte 0 rd, push_bit 4 rs1 OR rs2, 0x00] = 0"
    if "upper m \<notin> set SINGLE_OPERAND" "operands sl = [d, s1, s2]"
       "parse_register d = Inr rd" "parse_register s1 = Inr rs1" "parse_register s2 = Inr rs2"
  proof -
    note r = parse_register_range[OF that(3)] parse_register_range[OF that(4)]
      parse_register_range[OF that(5)]
    have b: "py_bytes [opc, w1_byte 0 rd, push_bit 4 rs1 OR rs2, 0x00]
              = Inr [opc, w1_byte 0 rd, push_bit 4 rs1 OR rs2, 0x00]"
      using ob r w1_byte_ok[of rd 0] src_byte[of rs1 rs2] by (intro py_bytes_ok) simp
    show ?thesis
      using that b r w1_byte_ok(3)[of rd 0]
      by (simp add: encode_3std_def mu ebind_def Let_def w1_byte_def mode_bits_def)
  qed
  have two_reg: "encode_3std opc sl symbols = Inr [opc, w1_byte 1 rd, push_bit 4 rd OR rs, 0x00]
        \<and> mode_bits [opc, w1_byte 1 rd, push_bit 4 rd OR rs, 0x00] = 1"
    if "upper m \<notin> set SINGLE_OPERAND" "operands sl = [d, o2]"
       "parse_register d = Inr rd" "parse_register (strip_hash o2) = Inr rs"
  proof -
    note r = parse_register_range[OF that(3)] parse_register_range[OF that(4)]
    have syn: "is_register_syntax (strip (strip_hash o2))" by (rule parse_register_syntax[OF that(4)])
    then have nm: "upper (strip o2) \<noteq> ''[MAR]''" using mar_not_register by blast
    have b: "py_bytes [opc, w1_byte 1 rd, push_bit 4 rd OR rs, 0x00]
              = Inr [opc, w1_byte 1 rd, push_bit 4 rd OR rs, 0x00]"
      using ob r w1_byte_ok[of rd 1] src_byte[of rd rs] by (intro py_bytes_ok) simp
    have e: "encode_3std opc sl symbols = py_bytes [opc, w1_byte 1 rd, push_bit 4 rd OR rs, 0x00]"
      using that syn nm
      by (simp add: encode_3std_def mu ebind_def strip_hash_encode w1_byte_def del: Let_def)
    show ?thesis using e b w1_byte_ok(3)[of rd 1] r by (simp add: mode_bits_def)
  qed
  have two_imm: "encode_3std opc sl symbols = Inr [opc, w1_byte 2 rd, v AND 0xFF, 0x00]
        \<and> mode_bits [opc, w1_byte 2 rd, v AND 0xFF, 0x00] = 2"
    if "upper m \<notin> set SINGLE_OPERAND" "\<not> mov_mar_form sl" "operands sl = [d, o2]"
       "parse_register d = Inr rd" "\<not> is_register_syntax (strip (strip_hash o2))"
       "eval_expr (strip_hash o2) symbols = Inr v"
  proof -
    note r = parse_register_range[OF that(4)]
    have nm: "\<not> (upper m = ''MOV'' \<and> upper (strip o2) = ''[MAR]'')"
      using that(2,3) by (simp add: mov_mar_form_def m)
    have b: "py_bytes [opc, w1_byte 2 rd, v AND 0xFF, 0x00] = Inr [opc, w1_byte 2 rd, v AND 0xFF, 0x00]"
      using ob r w1_byte_ok[of rd 2] low_byte[of v] by (intro py_bytes_ok) simp
    have e: "encode_3std opc sl symbols = py_bytes [opc, w1_byte 2 rd, v AND 0xFF, 0x00]"
      using that(1,3,4,5,6) nm
      by (cases "strip o2 \<noteq> [] \<and> hd (strip o2) = CHR ''#''")
         (auto simp add: encode_3std_def mu ebind_def strip_hash_def w1_byte_def Let_def)
    show ?thesis using e b w1_byte_ok(3)[of rd 2] r by (simp add: mode_bits_def)
  qed
  have mar: "encode_3std opc sl symbols = Inr [opc, w1_byte 3 rd, 0x00]
        \<and> mode_bits [opc, w1_byte 3 rd, 0x00] = 3"
    if "mov_mar_form sl" "parse_register (operands sl ! 0) = Inr rd"
  proof -
    note r = parse_register_range[OF that(2)]
    have b: "py_bytes [opc, w1_byte 3 rd, 0x00] = Inr [opc, w1_byte 3 rd, 0x00]"
      using ob r w1_byte_ok[of rd 3] by (intro py_bytes_ok) simp
    have e: "encode_3std opc sl symbols = py_bytes [opc, w1_byte 3 rd, 0x00]"
      using that by (simp add: encode_3std_def mu ebind_def mov_mar_form_def m w1_byte_def)
    show ?thesis using e b w1_byte_ok(3)[of rd 3] r by (simp add: mode_bits_def)
  qed
  have single: "encode_3std opc sl symbols = Inr [opc, w1_byte 1 rd, push_bit 4 rd, 0x00]
        \<and> mode_bits [opc, w1_byte 1 rd, push_bit 4 rd, 0x00] = 1"
    if "upper m \<in> set SINGLE_OPERAND" "operands sl = [d]" "parse_register d = Inr rd"
  proof -
    note r = parse_register_range[OF that(3)]
    have nm: "upper m \<noteq> ''MOV''" using that(1) mov_not_single by auto
    have b: "py_bytes [opc, w1_byte 1 rd, push_bit 4 rd, 0x00] = Inr [opc, w1_byte 1 rd, push_bit 4 rd, 0x00]"
      using ob r w1_byte_ok[of rd 1] src_byte[of rd 0] by (intro py_bytes_ok) simp
    have e: "encode_3std opc sl symbols = py_bytes [opc, w1_byte 1 rd, push_bit 4 rd, 0x00]"
      using that nm by (simp add: encode_3std_def mu ebind_def w1_byte_def)
    show ?thesis using e b w1_byte_ok(3)[of rd 1] r by (simp add: mode_bits_def)
  qed
  have arity: "encode_3std opc sl symbols = Inl (AsmError OperandCount)"
    if "upper m \<in> set SINGLE_OPERAND" "length (operands sl) \<noteq> 1"
  proof -
    have nm: "upper m \<noteq> ''MOV''" using that(1) mov_not_single by auto
    show ?thesis using that nm by (simp add: encode_3std_def mu ebind_def)
  qed
  from three two_reg two_imm mar single arity show ?thesis by blast
qed

text \<open>
  C1 (as stated in the specification): two operands \<open>Rd, imm\<close>, with or without a leading \<open>#\<close>,
  where the second does not match the register syntax \<open>[Rr]<digits>\<close>, give mode 10 with
  third byte \<open>imm & 0xFF\<close>. The encoder removes the \<open>#\<close> before it tests for a register: the
  operand \<open>#R2\<close> does not match the register syntax, and with a symbol \<open>R2 = 5\<close> the claim
  gives \<open>00 84 05 00\<close>, but \<open>ADD R1, #R2\<close> is encoded in mode 01 with register 2.
\<close>

theorem c1_hash_register_counterexample:
  "\<not> is_register_syntax ''#R2''
   \<and> eval_expr ''R2'' [''R2'' \<mapsto> 5] = Inr 5
   \<and> encode_3std 0x00 (src 1 None (Some ''ADD'') [''R1'', ''#R2'']) [''R2'' \<mapsto> 5]
       = Inr [0x00, 0x44, 0x12, 0x00]
   \<and> mode_bits [0x00, 0x44, 0x12, 0x00] = 1"
  by code_simp



theorem c1_mode_by_operand_shape_witness:
  "encode_3std 0x00 (src 1 None (Some ''ADD'') [''R1'', ''R2'', ''R3'']) Map.empty
     = Inr [0x00, 0x04, 0x23, 0x00]
   \<and> encode_3std 0x00 (src 1 None (Some ''ADD'') [''R5'', ''R6'']) Map.empty
     = Inr [0x00, 0x54, 0x56, 0x00]
   \<and> encode_3std 0x00 (src 1 None (Some ''ADD'') [''R2'', ''#0x11'']) Map.empty
     = Inr [0x00, 0x88, 0x11, 0x00]
   \<and> encode_3std 0x2D (src 1 None (Some ''MOV'') [''R3'', ''[MAR]'']) Map.empty
     = Inr [0x2D, 0xCC, 0x00]
   \<and> encode_3std 0x12 (src 1 None (Some ''INV'') [''R5'']) Map.empty
     = Inr [0x12, 0x54, 0x50, 0x00]
   \<and> encode_3std 0x12 (src 1 None (Some ''INV'') [''R5'', ''R6'']) Map.empty
     = Inl (AsmError OperandCount)"
proof -
  have add: "map_of OPCODES (upper ''ADD'') = Some (0x00, Enc_3std)" by code_simp
  have mov: "map_of OPCODES (upper ''MOV'') = Some (0x2D, Enc_3std)" by code_simp
  have inv: "map_of OPCODES (upper ''INV'') = Some (0x12, Enc_3std)" by code_simp
  have nadd: "upper ''ADD'' \<notin> set SINGLE_OPERAND" by code_simp
  have sinv: "upper ''INV'' \<in> set SINGLE_OPERAND" by code_simp
  have r1: "parse_register ''R1'' = Inr 1" by code_simp
  have r2: "parse_register ''R2'' = Inr 2" by code_simp
  have r3: "parse_register ''R3'' = Inr 3" by code_simp
  have r5: "parse_register ''R5'' = Inr 5" by code_simp
  have r6: "parse_register (strip_hash ''R6'') = Inr 6" by code_simp
  have nreg: "\<not> is_register_syntax (strip (strip_hash ''#0x11''))" by code_simp
  have imm: "eval_expr (strip_hash ''#0x11'') Map.empty = Inr 0x11" by code_simp
  have nmar: "\<not> mov_mar_form (src 1 None (Some ''ADD'') [''R2'', ''#0x11''])" by code_simp
  have ymar: "mov_mar_form (src 1 None (Some ''MOV'') [''R3'', ''[MAR]''])" by code_simp
  have three: "encode_3std 0x00 (src 1 None (Some ''ADD'') [''R1'', ''R2'', ''R3'']) Map.empty
     = Inr [0x00, 0x04, 0x23, 0x00]"
    using c1_mode_by_operand_shape[of "src 1 None (Some ''ADD'') [''R1'', ''R2'', ''R3'']" "''ADD''" 0,
        OF _ add, THEN conjunct1, rule_format, OF _ nadd _ r1 r2 r3, of Map.empty]
    by (simp add: src_def w1_byte_def)
  have two: "encode_3std 0x00 (src 1 None (Some ''ADD'') [''R5'', ''R6'']) Map.empty
     = Inr [0x00, 0x54, 0x56, 0x00]"
    using c1_mode_by_operand_shape[of "src 1 None (Some ''ADD'') [''R5'', ''R6'']" "''ADD''" 0,
        OF _ add, THEN conjunct2, THEN conjunct1, rule_format, OF _ nadd _ r5 r6, of Map.empty]
    by (simp add: src_def w1_byte_def)
  have immediate: "encode_3std 0x00 (src 1 None (Some ''ADD'') [''R2'', ''#0x11'']) Map.empty
     = Inr [0x00, 0x88, 0x11, 0x00]"
    using c1_mode_by_operand_shape[of "src 1 None (Some ''ADD'') [''R2'', ''#0x11'']" "''ADD''" 0,
        OF _ add, THEN conjunct2, THEN conjunct2, THEN conjunct1, rule_format,
        OF _ nadd nmar _ r2 nreg imm]
    by (simp add: src_def w1_byte_def)
  have mar: "encode_3std 0x2D (src 1 None (Some ''MOV'') [''R3'', ''[MAR]'']) Map.empty
     = Inr [0x2D, 0xCC, 0x00]"
    using c1_mode_by_operand_shape[of "src 1 None (Some ''MOV'') [''R3'', ''[MAR]'']" "''MOV''" "0x2D",
        OF _ mov, THEN conjunct2, THEN conjunct2, THEN conjunct2, THEN conjunct1, rule_format,
        OF _ ymar, of 3 Map.empty] r3
    by (simp add: src_def w1_byte_def)
  have single: "encode_3std 0x12 (src 1 None (Some ''INV'') [''R5'']) Map.empty
     = Inr [0x12, 0x54, 0x50, 0x00]"
    using c1_mode_by_operand_shape[of "src 1 None (Some ''INV'') [''R5'']" "''INV''" "0x12",
        OF _ inv, THEN conjunct2, THEN conjunct2, THEN conjunct2, THEN conjunct2, THEN conjunct1,
        rule_format, OF _ sinv _ r5, of Map.empty]
    by (simp add: src_def w1_byte_def)
  have arity: "encode_3std 0x12 (src 1 None (Some ''INV'') [''R5'', ''R6'']) Map.empty
     = Inl (AsmError OperandCount)"
    using c1_mode_by_operand_shape[of "src 1 None (Some ''INV'') [''R5'', ''R6'']" "''INV''" "0x12",
        OF _ inv, THEN conjunct2, THEN conjunct2, THEN conjunct2, THEN conjunct2, THEN conjunct2,
        rule_format, OF _ sinv, of Map.empty]
    by (simp add: src_def)
  from three two immediate mar single arity show ?thesis by blast
qed

subsection \<open>C4: the pad byte of the 3std family\<close>

lemma write_bytes_lookup:
  "map_of (write_bytes mem a bs) k =
     (if a \<le> k \<and> k < a + int (length bs) then Some (bs ! nat (k - a)) else map_of mem k)"
proof (induction bs arbitrary: mem a)
  case Nil
  then show ?case by auto
next
  case (Cons b bs)
  show ?case
  proof (cases "k = a")
    case True
    with Cons.IH[of "AList.update a b mem" "a + 1"] show ?thesis by (simp add: update_conv')
  next
    case False
    then have "nat (k - a) = Suc (nat (k - (a + 1)))" if "a \<le> k" using that by auto
    with False Cons.IH[of "AList.update a b mem" "a + 1"] show ?thesis by (auto simp: update_conv')
  qed
qed

lemma pass2_loop_append:
  "pass2_loop st (xs @ ys) = ebind (pass2_loop st xs) (\<lambda>st'. pass2_loop st' ys)"
  by (induction xs arbitrary: st) (auto simp: ebind_def split: sum.splits)

lemma pass1_loop_append:
  "pass1_loop predefined st (xs @ ys) = ebind (pass1_loop predefined st xs) (\<lambda>st'. pass1_loop predefined st' ys)"
  by (induction xs arbitrary: st) (auto simp: ebind_def split: sum.splits)



lemma pass2_step_listing:
  assumes "pass2_step (sy, mem, lst, w) (sl, c) = Inr (sy', mem', lst', w')"
  shows "\<exists>data. lst' = lst @ [(c, data, sl)]
           \<and> (\<forall>i < length data. map_of mem' (c + int i) = Some (data ! i))"
  using assms
  by (auto simp: pass2_step_def ebind_def write_bytes_lookup Let_def
      split: sum.splits option.splits if_splits prod.splits)







lemma pass1_step_located:
  assumes "\<not> (truthy (mnemonic nxt) \<and> upper (the (mnemonic nxt)) \<in> {''.ORG'', ''.EQU''})"
    and "pass1_step predefined (symbols, located, lc) nxt = Inr st"
  shows "fst (snd st) = located @ [(nxt, lc)]"
  using assms
  by (auto simp: pass1_step_def ebind_def Let_def split: sum.splits if_splits)





subsection \<open>C7: predefines are frozen\<close>

lemma upper_Nil: "upper m = [] \<longleftrightarrow> m = []"
  by (simp add: upper_def)

lemma pass1_step_keeps_predefine:
  assumes "pass1_step predefined (symbols, located, lc) sl = Inr (symbols', located', lc')"
    and "predefined name = Some v" and "symbols name = Some v"
  shows "symbols' name = Some v"
  using assms
  by (auto simp: pass1_step_def bind_label_def ebind_def Let_def
      split: if_splits sum.splits error.splits)

lemma pass1_loop_keeps_predefine:
  assumes "pass1_loop predefined st sls = Inr st'"
    and "predefined name = Some v" and "fst st name = Some v"
  shows "fst st' name = Some v"
  using assms
proof (induction sls arbitrary: st)
  case Nil
  then show ?case by simp
next
  case (Cons sl sls)
  from Cons.prems(1) obtain s where s: "pass1_step predefined st sl = Inr s"
    and r: "pass1_loop predefined s sls = Inr st'"
    by (auto simp: ebind_def split: sum.splits)
  obtain symbols located lc where st: "st = (symbols, located, lc)" by (cases st)
  obtain symbols1 located1 lc1 where s1: "s = (symbols1, located1, lc1)" by (cases s)
  from pass1_step_keeps_predefine[OF s[unfolded st s1] Cons.prems(2)] Cons.prems(3) st
  have "symbols1 name = Some v" by simp
  with Cons.IH[OF r Cons.prems(2)] s1 show ?case by simp
qed

lemma pass1_step_appends:
  assumes "pass1_step predefined (symbols, located, lc) sl = Inr (symbols', located', lc')"
  shows "located' = located
         \<or> (located' = located @ [(sl, lc)]
             \<and> \<not> is_directive ''.EQU'' sl \<and> \<not> is_directive ''.ORG'' sl)"
  using assms
  by (auto simp: pass1_step_def ebind_def Let_def is_directive_def truthy_def upper_def
      split: if_splits sum.splits error.splits option.splits)

lemma pass1_step_located_no_equ:
  assumes "pass1_step predefined (symbols, located, lc) sl = Inr (symbols', located', lc')"
    and "\<forall>e \<in> set located. \<not> is_directive ''.EQU'' (fst e) \<and> \<not> is_directive ''.ORG'' (fst e)"
  shows "\<forall>e \<in> set located'. \<not> is_directive ''.EQU'' (fst e) \<and> \<not> is_directive ''.ORG'' (fst e)"
  using pass1_step_appends[OF assms(1)] assms(2) by auto

lemma pass1_loop_located_no_equ:
  assumes "pass1_loop predefined st sls = Inr st'"
    and "\<forall>e \<in> set (fst (snd st)). \<not> is_directive ''.EQU'' (fst e) \<and> \<not> is_directive ''.ORG'' (fst e)"
  shows "\<forall>e \<in> set (fst (snd st')). \<not> is_directive ''.EQU'' (fst e) \<and> \<not> is_directive ''.ORG'' (fst e)"
  using assms
proof (induction sls arbitrary: st)
  case Nil
  then show ?case by simp
next
  case (Cons sl sls)
  from Cons.prems(1) obtain s where s: "pass1_step predefined st sl = Inr s"
    and r: "pass1_loop predefined s sls = Inr st'"
    by (auto simp: ebind_def split: sum.splits)
  obtain symbols located lc where st: "st = (symbols, located, lc)" by (cases st)
  obtain symbols1 located1 lc1 where s1: "s = (symbols1, located1, lc1)" by (cases s)
  from pass1_step_located_no_equ[OF s[unfolded st s1]] Cons.prems(2) st
  have "\<forall>e \<in> set located1. \<not> is_directive ''.EQU'' (fst e) \<and> \<not> is_directive ''.ORG'' (fst e)" by simp
  with Cons.IH[OF r] s1 show ?case by simp
qed

lemma encode_directive_symbols:
  assumes "encode_directive sl sy mem w = Inr (r, sy', mem', w')" and "\<not> is_directive ''.EQU'' sl"
  shows "sy' = sy"
  using assms
  by (auto simp: encode_directive_def ebind_def mnemonic_upper_def is_directive_def Let_def
      split: if_splits sum.splits option.splits error.splits)

lemma pass2_step_symbols:
  assumes "pass2_step (sy, mem, lst, w) (sl, a) = Inr (sy', mem', lst', w')"
    and "\<not> is_directive ''.EQU'' sl"
  shows "sy' = sy"
  using assms
  by (auto simp: pass2_step_def ebind_def Let_def
      split: if_splits sum.splits option.splits prod.splits dest: encode_directive_symbols)

lemma pass2_loop_symbols:
  assumes "pass2_loop st ls = Inr st'"
    and "\<forall>e \<in> set ls. \<not> is_directive ''.EQU'' (fst e)"
  shows "fst st' = fst st"
  using assms
proof (induction ls arbitrary: st)
  case Nil
  then show ?case by simp
next
  case (Cons e ls)
  from Cons.prems(1) obtain s where s: "pass2_step st e = Inr s"
    and r: "pass2_loop s ls = Inr st'"
    by (auto simp: ebind_def split: sum.splits)
  obtain sl a where e: "e = (sl, a)" by (cases e)
  obtain sy mem lst w where st: "st = (sy, mem, lst, w)" by (cases st)
  obtain sy1 mem1 lst1 w1 where s1: "s = (sy1, mem1, lst1, w1)" by (cases s)
  from pass2_step_symbols[OF s[unfolded st s1 e]] Cons.prems(2) e have "sy1 = sy" by simp
  with Cons.IH[OF r] Cons.prems(2) s1 st show ?case by simp
qed

lemma is_equ_line_directive: "is_equ_line sl \<Longrightarrow> is_directive ''.EQU'' sl"
  by (auto simp: is_equ_line_def is_directive_def truthy_def split: option.splits)

lemma resolve_equs_none:
  assumes "\<forall>e \<in> set ls. \<not> is_directive ''.EQU'' (fst e)"
  shows "resolve_equs predefined ls sy = Inr sy"
  using assms
  by (induction ls arbitrary: sy) (auto dest: is_equ_line_directive)


text \<open>
  C7: a symbol supplied as a predefine keeps its value. It has that value in the symbol
  table after pass 1 and in the final symbol table of the assembly, and the table that
  pass 2 holds before and after each line it encodes has it too (pass 1 hands no \<open>.equ\<close>
  line to pass 2, so nothing rebinds a symbol there). In pass 1 a \<open>.equ NAME, expr\<close> of the
  same name is skipped: the step does nothing but bind the line's label, if it has one.
  A label of the same name stops pass 1 with the "Duplicate label" error.
\<close>

theorem c7_predefines_frozen:
  assumes pre: "predefines name = Some v"
  shows
    "(assemble source_lines predefines seed = Inr (mem, lst, symbols) \<longrightarrow> symbols name = Some v)
   \<and> (pass1 source_lines predefines = Inr (symbols1, located) \<longrightarrow>
        symbols1 name = Some v
        \<and> (\<forall>ls rest st. located = ls @ rest \<longrightarrow>
              pass2_loop (seed ++ symbols1, [], [], []) ls = Inr st \<longrightarrow> fst st name = Some v))
   \<and> (is_directive ''.EQU'' sl \<longrightarrow> 2 \<le> length (operands sl) \<longrightarrow> operands sl ! 0 = name \<longrightarrow>
        pass1_step predefines (sy, loc, lc) sl
          = ebind (bind_label sl sy lc) (\<lambda>sy'. Inr (sy', loc, lc)))
   \<and> (label sl = Some name \<longrightarrow> name \<noteq> [] \<longrightarrow>
        pass1_loop predefines (predefines, [], 0) before = Inr st0 \<longrightarrow>
        pass1 (before @ sl # after) predefines = Inl (AsmError DuplicateLabel))"
proof -
  have inv: "symbols1 name = Some v
             \<and> (\<forall>e \<in> set located. \<not> is_directive ''.EQU'' (fst e) \<and> \<not> is_directive ''.ORG'' (fst e))"
    if "pass1 source_lines predefines = Inr (symbols1, located)" for symbols1 located
  proof -
    from that obtain lc where
      l: "pass1_loop predefines (predefines, [], 0) source_lines = Inr (symbols1, located, lc)"
      by (auto simp: pass1_def ebind_def split: sum.splits)
    from pass1_loop_keeps_predefine[OF l pre] pre pass1_loop_located_no_equ[OF l]
    show ?thesis by simp
  qed
  have p2: "symbols1 name = Some v
        \<and> (\<forall>ls rest st. located = ls @ rest \<longrightarrow>
              pass2_loop (seed ++ symbols1, [], [], []) ls = Inr st \<longrightarrow> fst st name = Some v)"
    if a: "pass1 source_lines predefines = Inr (symbols1, located)"
  proof -
    note i = inv[OF a]
    have "fst st name = Some v"
      if "located = ls @ rest" "pass2_loop (seed ++ symbols1, [], [], []) ls = Inr st" for ls rest st
    proof -
      have "\<forall>e \<in> set ls. \<not> is_directive ''.EQU'' (fst e)" using i that(1) by auto
      from pass2_loop_symbols[OF that(2) this] i show ?thesis by (simp add: map_add_Some_iff)
    qed
    with i show ?thesis by blast
  qed
  have p1: "symbols name = Some v" if a: "assemble source_lines predefines seed = Inr (mem, lst, symbols)"
  proof -
    from a obtain symbols1 located where
      p: "pass1 source_lines predefines = Inr (symbols1, located)"
      and q: "pass2 located (seed ++ symbols1) = Inr (mem, lst, symbols)"
      by (auto simp: assemble_def ebind_def split: sum.splits)
    note i = inv[OF p]
    then have ne: "\<forall>e \<in> set located. \<not> is_directive ''.EQU'' (fst e)" by auto
    from q obtain st where l: "pass2_loop (seed ++ symbols1, [], [], []) located = Inr st"
      and s: "symbols = fst st"
      by (auto simp: pass2_def resolve_equs_none[OF ne] ebind_def Let_def split: sum.splits)
    from pass2_loop_symbols[OF l ne] s i show ?thesis by (simp add: map_add_Some_iff)
  qed
  have p3: "pass1_step predefines (sy, loc, lc) sl
          = ebind (bind_label sl sy lc) (\<lambda>sy'. Inr (sy', loc, lc))"
    if "is_directive ''.EQU'' sl" "2 \<le> length (operands sl)" "operands sl ! 0 = name"
  proof -
    from that(1) obtain m where m: "mnemonic sl = Some m" "upper m = ''.EQU''"
      by (auto simp: is_directive_def split: option.splits)
    then have "m \<noteq> []" by (auto simp: upper_def)
    with m that(2,3) pre show ?thesis
      by (auto simp: pass1_step_def truthy_def ebind_def split: sum.splits)
  qed
  have p4: "pass1 (before @ sl # after) predefines = Inl (AsmError DuplicateLabel)"
    if "label sl = Some name" "name \<noteq> []"
       "pass1_loop predefines (predefines, [], 0) before = Inr st0"
  proof -
    obtain sy0 loc0 lc0 where st0: "st0 = (sy0, loc0, lc0)" by (cases st0)
    from pass1_loop_keeps_predefine[OF that(3) pre] pre st0 have "sy0 name = Some v" by simp
    then have "pass1_step predefines (sy0, loc0, lc0) sl = Inl (AsmError DuplicateLabel)"
      using that(1,2) by (simp add: pass1_step_def bind_label_def truthy_def ebind_def)
    then show ?thesis
      using that(3) st0 by (simp add: pass1_def pass1_loop_append ebind_def)
  qed
  from p1 p2 p3 p4 show ?thesis by blast
qed

theorem c7_predefines_frozen_witness:
  "(\<exists>lst symbols. assemble c7_program [''X'' \<mapsto> 99] Map.empty
        = Inr ([(0, 0x00), (1, 0x84), (2, 99), (3, 0x00)], lst, symbols) \<and> symbols ''X'' = Some 99)
   \<and> pass1 ([] @ c7_label_line # []) [''X'' \<mapsto> 99] = Inl (AsmError DuplicateLabel)"
proof -
  have pre: "[''X'' \<mapsto> (99::int)] ''X'' = Some 99" by simp
  note t = c7_predefines_frozen[where predefines = "[''X'' \<mapsto> 99]" and name = "''X''" and v = 99, OF pre]
  have "ebind (assemble c7_program [''X'' \<mapsto> 99] Map.empty) (\<lambda>(mem, lst, symbols). Inr mem)
          = Inr [(0, 0x00), (1, 0x84), (2, 99), (3, 0x00)]"
    by code_simp
  then obtain lst symbols where a: "assemble c7_program [''X'' \<mapsto> 99] Map.empty
        = Inr ([(0, 0x00), (1, 0x84), (2, 99), (3, 0x00)], lst, symbols)"
    by (auto simp: ebind_def split: sum.splits)
  from t[THEN conjunct1, rule_format, OF a] a
  have w1: "\<exists>lst symbols. assemble c7_program [''X'' \<mapsto> 99] Map.empty
        = Inr ([(0, 0x00), (1, 0x84), (2, 99), (3, 0x00)], lst, symbols) \<and> symbols ''X'' = Some 99"
    by blast
  have l: "label c7_label_line = Some ''X''" by (simp add: c7_label_line_def src_def)
  have b: "pass1_loop [''X'' \<mapsto> 99] ([''X'' \<mapsto> 99], [], 0) [] = Inr ([''X'' \<mapsto> 99], [], 0)"
    by simp
  have w4: "pass1 ([] @ c7_label_line # []) [''X'' \<mapsto> 99] = Inl (AsmError DuplicateLabel)"
    using t[THEN conjunct2, THEN conjunct2, THEN conjunct2, rule_format, OF l _ b] by simp
  from w1 w4 show ?thesis by blast
qed

subsection \<open>C8: the reset vector\<close>

lemma low_byte_of_word: "((v::int) AND 0xFFFF) AND 0xFF = v AND 0xFF"
proof -
  have "(0xFFFF::int) AND 0xFF = 0xFF" by simp
  then show ?thesis by (simp add: and.assoc)
qed

lemma high_byte_of_word: "drop_bit 8 ((v::int) AND 0xFFFF) AND 0xFF = drop_bit 8 v AND 0xFF"
proof -
  have "drop_bit 8 (v AND 0xFFFF) = drop_bit 8 v AND drop_bit 8 (0xFFFF::int)" by simp
  moreover have "drop_bit 8 (0xFFFF::int) = 0xFF" by (simp add: drop_bit_eq_div)
  ultimately show ?thesis by (simp add: and.assoc)
qed

lemma encode_directive_resetvec:
  assumes "is_directive ''.RESETVEC'' sl" and "operands sl = [e]" and "eval_expr e sy = Inr v"
  shows "encode_directive sl sy mem w =
     Inr ((Some [], None), sy,
          AList.update 0xFFFD (drop_bit 8 v AND 0xFF) (AList.update 0xFFFC (v AND 0xFF) mem), w)"
  using assms
  by (auto simp: encode_directive_def mnemonic_upper_def is_directive_def ebind_def Let_def
      low_byte_of_word high_byte_of_word split: option.splits)

lemma encode_directive_memory:
  assumes "encode_directive sl sy mem w = Inr (r, sy', mem', w')"
    and "\<not> is_directive ''.RESETVEC'' sl"
  shows "mem' = mem"
  using assms
  by (auto simp: encode_directive_def ebind_def mnemonic_upper_def is_directive_def Let_def
      split: if_splits sum.splits option.splits error.splits)

lemma pass2_step_frame:
  assumes "pass2_step (sy, mem, lst, w) (sl, c) = Inr (sy', mem', lst', w')"
    and "\<not> is_directive ''.RESETVEC'' sl"
  shows "\<exists>data. lst' = lst @ [(c, data, sl)]
           \<and> (\<forall>k. c + int (length data) \<le> k \<or> k < c \<longrightarrow> map_of mem' k = map_of mem k)"
  using assms
  by (auto simp: pass2_step_def ebind_def write_bytes_lookup Let_def
      split: sum.splits option.splits if_splits prod.splits dest: encode_directive_memory)


lemma pass2_loop_frame:
  assumes "pass2_loop (sy, mem, lst, w) rest = Inr (sy', mem', lst', w')"
    and "\<forall>x \<in> set rest. \<not> is_directive ''.RESETVEC'' (fst x)"
  shows "\<exists>new. lst' = lst @ new
           \<and> ((\<forall>(c, n) \<in> set (emitted new). c + n \<le> k \<or> k < c) \<longrightarrow> map_of mem' k = map_of mem k)"
  using assms
proof (induction rest arbitrary: sy mem lst w)
  case Nil
  then show ?case by (simp add: emitted_def)
next
  case (Cons x rest)
  obtain sl c where x: "x = (sl, c)" by (cases x)
  from Cons.prems(1) obtain s where s: "pass2_step (sy, mem, lst, w) (sl, c) = Inr s"
    and r: "pass2_loop s rest = Inr (sy', mem', lst', w')"
    by (auto simp: x ebind_def split: sum.splits)
  obtain sy1 mem1 lst1 w1 where s1: "s = (sy1, mem1, lst1, w1)" by (cases s)
  from Cons.prems(2) x have nr: "\<not> is_directive ''.RESETVEC'' sl" by simp
  from pass2_step_frame[OF s[unfolded s1] nr] obtain data where
    l1: "lst1 = lst @ [(c, data, sl)]"
    and f1: "\<forall>k. c + int (length data) \<le> k \<or> k < c \<longrightarrow> map_of mem1 k = map_of mem k" by blast
  from Cons.IH[OF r[unfolded s1]] Cons.prems(2) obtain new where
    l2: "lst' = lst1 @ new"
    and f2: "(\<forall>(c, n) \<in> set (emitted new). c + n \<le> k \<or> k < c) \<longrightarrow> map_of mem' k = map_of mem1 k"
    by auto
  have "lst' = lst @ ((c, data, sl) # new)" using l1 l2 by simp
  moreover have "map_of mem' k = map_of mem k"
    if "\<forall>(c, n) \<in> set (emitted ((c, data, sl) # new)). c + n \<le> k \<or> k < c"
    using that f1 f2 by (auto simp: emitted_def)
  ultimately show ?case by blast
qed

lemma pass2_loop_listing_length:
  "pass2_loop (sy, mem, lst, w) ls = Inr (sy', mem', lst', w') \<Longrightarrow> length lst' = length lst + length ls"
proof (induction ls arbitrary: sy mem lst w)
  case Nil
  then show ?case by simp
next
  case (Cons x ls)
  obtain sl c where x: "x = (sl, c)" by (cases x)
  from Cons.prems obtain s where s: "pass2_step (sy, mem, lst, w) (sl, c) = Inr s"
    and r: "pass2_loop s ls = Inr (sy', mem', lst', w')"
    by (auto simp: x ebind_def split: sum.splits)
  obtain sy1 mem1 lst1 w1 where s1: "s = (sy1, mem1, lst1, w1)" by (cases s)
  from pass2_step_listing[OF s[unfolded s1]] have "length lst1 = Suc (length lst)" by auto
  with Cons.IH[OF r[unfolded s1]] show ?case by simp
qed

text \<open>
  C8: a \<open>.resetvec expr\<close> line makes pass 2 write \<open>expr & 0xFF\<close> to address \<open>0xFFFC\<close> and
  \<open>(expr >> 8) & 0xFF\<close> to address \<open>0xFFFD\<close>, and emits nothing at the line's own address. Its
  size in pass 1 is 0, so the line located after it has the same address. The last
  \<open>.resetvec\<close> wins: whatever the lines before it are (other \<open>.resetvec\<close> lines among
  them), when no line after it is a \<open>.resetvec\<close> or emits a byte at \<open>0xFFFC\<close> or \<open>0xFFFD\<close>, the two
  bytes of the final memory are those of the last one.
\<close>

theorem c8_resetvec:
  assumes r: "is_directive ''.RESETVEC'' sl" and ops: "operands sl = [e]"
  shows
    "(eval_expr e sy = Inr v \<longrightarrow>
        pass2_step (sy, mem, lst, w) (sl, a)
          = Inr (sy, AList.update 0xFFFD (drop_bit 8 v AND 0xFF) (AList.update 0xFFFC (v AND 0xFF) mem),
                 lst @ [(a, [], sl)], w))
   \<and> instruction_size sl = 0
   \<and> (pass1_loop predefined (symbols1, located, lc) [sl, nxt] = Inr st1 \<longrightarrow>
        \<not> (truthy (mnemonic nxt) \<and> upper (the (mnemonic nxt)) \<in> {''.ORG'', ''.EQU''}) \<longrightarrow>
        fst (snd st1) = located @ [(sl, lc), (nxt, lc)])
   \<and> (pass2_loop st0 ls = Inr (sy1, mem1, lst1, w1) \<longrightarrow> eval_expr e sy1 = Inr v \<longrightarrow>
        pass2_loop st0 (ls @ (sl, a) # rest) = Inr (sy2, mem2, lst2, w2) \<longrightarrow>
        (\<forall>x \<in> set rest. \<not> is_directive ''.RESETVEC'' (fst x)) \<longrightarrow>
        (\<forall>(c, n) \<in> set (drop (Suc (length lst1)) (emitted lst2)). c + n \<le> 0xFFFC \<or> 0xFFFD < c) \<longrightarrow>
        map_of mem2 0xFFFC = Some (v AND 0xFF) \<and> map_of mem2 0xFFFD = Some (drop_bit 8 v AND 0xFF))"
proof -
  from r obtain m where m: "mnemonic sl = Some m" "upper m = ''.RESETVEC''"
    by (auto simp: is_directive_def split: option.splits)
  then have mne: "m \<noteq> []" by (auto simp: upper_def)
  have sz: "instruction_size sl = 0" using m by (simp add: instruction_size_def)
  have step: "pass2_step (sy, mem, lst, w) (sl, a)
          = Inr (sy, AList.update 0xFFFD (drop_bit 8 v AND 0xFF) (AList.update 0xFFFC (v AND 0xFF) mem),
                 lst @ [(a, [], sl)], w)"
    if "eval_expr e sy = Inr v" for sy v mem lst w
    using m by (simp add: pass2_step_def encode_directive_resetvec[OF r ops that] ebind_def)
  have p3: "fst (snd st1) = located @ [(sl, lc), (nxt, lc)]"
    if a: "pass1_loop predefined (symbols1, located, lc) [sl, nxt] = Inr st1"
      and b: "\<not> (truthy (mnemonic nxt) \<and> upper (the (mnemonic nxt)) \<in> {''.ORG'', ''.EQU''})"
  proof -
    from a obtain s where s: "pass1_step predefined (symbols1, located, lc) sl = Inr s"
      and n: "pass1_step predefined s nxt = Inr st1"
      by (auto simp: ebind_def split: sum.splits)
    from s m mne sz obtain symbols' where s': "s = (symbols', located @ [(sl, lc)], lc)"
      by (auto simp: pass1_step_def ebind_def truthy_def Let_def split: sum.splits)
    from pass1_step_located[OF b n[unfolded s']] show ?thesis by simp
  qed
  have p4: "map_of mem2 0xFFFC = Some (v AND 0xFF) \<and> map_of mem2 0xFFFD = Some (drop_bit 8 v AND 0xFF)"
    if a: "pass2_loop st0 ls = Inr (sy1, mem1, lst1, w1)" and ev: "eval_expr e sy1 = Inr v"
      and b: "pass2_loop st0 (ls @ (sl, a) # rest) = Inr (sy2, mem2, lst2, w2)"
      and nr: "\<forall>x \<in> set rest. \<not> is_directive ''.RESETVEC'' (fst x)"
      and fr: "\<forall>(c, n) \<in> set (drop (Suc (length lst1)) (emitted lst2)). c + n \<le> 0xFFFC \<or> 0xFFFD < c"
  proof -
    let ?mem = "AList.update 0xFFFD (drop_bit 8 v AND 0xFF) (AList.update 0xFFFC (v AND 0xFF) mem1)"
    from b a step[OF ev] have
      l: "pass2_loop (sy1, ?mem, lst1 @ [(a, [], sl)], w1) rest = Inr (sy2, mem2, lst2, w2)"
      by (simp add: pass2_loop_append ebind_def)
    have lk: "\<exists>new. lst2 = (lst1 @ [(a, [], sl)]) @ new
           \<and> ((\<forall>(c, n) \<in> set (emitted new). c + n \<le> k \<or> k < c) \<longrightarrow> map_of mem2 k = map_of ?mem k)"
      for k by (rule pass2_loop_frame[OF l nr])
    from lk[of "0xFFFC"] obtain new where n: "lst2 = (lst1 @ [(a, [], sl)]) @ new"
      and c: "(\<forall>(c, n) \<in> set (emitted new). c + n \<le> 0xFFFC \<or> 0xFFFC < c) \<longrightarrow>
              map_of mem2 0xFFFC = map_of ?mem 0xFFFC" by blast
    from lk[of "0xFFFD"] n have
      d: "(\<forall>(c, n) \<in> set (emitted new). c + n \<le> 0xFFFD \<or> 0xFFFD < c) \<longrightarrow>
              map_of mem2 0xFFFD = map_of ?mem 0xFFFD" by auto
    have "drop (Suc (length lst1)) (emitted lst2) = emitted new"
      using n by (simp add: emitted_def)
    with fr have f: "\<forall>(c, n) \<in> set (emitted new). c + n \<le> 0xFFFC \<or> 0xFFFD < c" by simp
    have "map_of mem2 0xFFFC = map_of ?mem 0xFFFC" using c f by fastforce
    moreover have "map_of mem2 0xFFFD = map_of ?mem 0xFFFD" using d f by fastforce
    ultimately show ?thesis by (simp add: update_conv')
  qed
  from step sz p3 p4 show ?thesis by blast
qed


theorem c8_resetvec_witness:
  "instruction_size c8_last = 0
   \<and> (\<exists>st1. pass1_loop Map.empty (Map.empty, [], 0) [c8_last, c8_ret] = Inr st1
             \<and> fst (snd st1) = [] @ [(c8_last, 0), (c8_ret, 0)])
   \<and> assembled_memory [c8_first, c8_last, c8_ret]
        = Inr [(0xFFFC, 0x00), (0xFFFD, 0x02), (0, 0x3E), (1, 0x00)]
   \<and> map_of [(0xFFFC :: int, 0x00), (0xFFFD, 0x02), (0, 0x3E), (1, 0x00)] 0xFFFC
        = Some ((0x0200 :: int) AND 0xFF)
   \<and> map_of [(0xFFFC :: int, 0x00), (0xFFFD, 0x02), (0, 0x3E), (1, 0x00)] 0xFFFD
        = Some (drop_bit 8 (0x0200 :: int) AND 0xFF)"
proof -
  have r: "is_directive ''.RESETVEC'' c8_last" by code_simp
  have ops: "operands c8_last = [''0x0200'']" by (simp add: c8_last_def src_def)
  note t = c8_resetvec[OF r ops]
  have ev: "eval_expr ''0x0200'' sy = Inr 0x0200" for sy by code_simp
  have w2: "instruction_size c8_last = 0" using t[THEN conjunct2, THEN conjunct1] .
  have nxt: "\<not> (truthy (mnemonic c8_ret) \<and> upper (the (mnemonic c8_ret)) \<in> {''.ORG'', ''.EQU''})"
    by code_simp
  have "ebind (pass1_loop Map.empty (Map.empty, [], 0) [c8_last, c8_ret])
          (\<lambda>(sy, loc, lc). Inr (length loc)) = Inr 2" by code_simp
  then obtain st1 where l1: "pass1_loop Map.empty (Map.empty, [], 0) [c8_last, c8_ret] = Inr st1"
    by (auto simp: ebind_def split: sum.splits)
  have w3: "\<exists>st1. pass1_loop Map.empty (Map.empty, [], 0) [c8_last, c8_ret] = Inr st1
             \<and> fst (snd st1) = [] @ [(c8_last, 0), (c8_ret, 0)]"
    using t[THEN conjunct2, THEN conjunct2, THEN conjunct1, rule_format, OF l1 nxt] l1 by blast
  have "ebind (pass2_loop (Map.empty, [], [], []) [(c8_first, 0)])
          (\<lambda>(sy, mem, lst, w). Inr (length lst)) = Inr 1" by code_simp
  then obtain sy1 mem1 lst1 w1 where
    a: "pass2_loop (Map.empty, [], [], []) [(c8_first, 0)] = Inr (sy1, mem1, lst1, w1)"
    and n1: "length lst1 = 1"
    by (auto simp: ebind_def split: sum.splits)
  have "ebind (pass2_loop (Map.empty, [], [], []) ([(c8_first, 0)] @ (c8_last, 0) # [(c8_ret, 0)]))
          (\<lambda>(sy, mem, lst, w). Inr (mem, emitted lst))
        = Inr ([(0xFFFC, 0x00), (0xFFFD, 0x02), (0, 0x3E), (1, 0x00)], [(0, 0), (0, 0), (0, 2)])"
    by code_simp
  then obtain sy2 lst2 w2' where
    b: "pass2_loop (Map.empty, [], [], []) ([(c8_first, 0)] @ (c8_last, 0) # [(c8_ret, 0)])
          = Inr (sy2, [(0xFFFC, 0x00), (0xFFFD, 0x02), (0, 0x3E), (1, 0x00)], lst2, w2')"
    and e2: "emitted lst2 = [(0, 0), (0, 0), (0, 2)]"
    by (auto simp: ebind_def split: sum.splits)
  have nr: "\<forall>x \<in> set [(c8_ret, 0::int)]. \<not> is_directive ''.RESETVEC'' (fst x)" by code_simp
  have fr: "\<forall>(c, n) \<in> set (drop (Suc (length lst1)) (emitted lst2)). c + n \<le> 0xFFFC \<or> 0xFFFD < c"
    by (simp add: n1 e2)
  from t[THEN conjunct2, THEN conjunct2, THEN conjunct2, THEN mp, OF a, THEN mp, OF ev,
      THEN mp, OF b, THEN mp, OF nr, THEN mp, OF fr]
  have w4: "map_of [(0xFFFC :: int, 0x00), (0xFFFD, 0x02), (0, 0x3E), (1, 0x00)] 0xFFFC
              = Some ((0x0200 :: int) AND 0xFF)
          \<and> map_of [(0xFFFC :: int, 0x00), (0xFFFD, 0x02), (0, 0x3E), (1, 0x00)] 0xFFFD
              = Some (drop_bit 8 (0x0200 :: int) AND 0xFF)" .
  have w5: "assembled_memory [c8_first, c8_last, c8_ret]
        = Inr [(0xFFFC, 0x00), (0xFFFD, 0x02), (0, 0x3E), (1, 0x00)]" by code_simp
  from w2 w3 w4 w5 show ?thesis by blast
qed

end
